theory Spec2Isabelle
  imports Main
begin

section \<open>Python values that the matcher handles\<close>

text \<open>
  A symbolic dimension (class \<open>Dim\<close>) is keyed by object identity, not by its name.
  The class lives in \<open>shapeguard/core.py\<close>; here an object is its identity
  (a number) together with its display name, so two dimensions with the same name and
  different identities are different keys.
\<close>

datatype dim = Dim (dim_id: nat) (dim_name: string)

text \<open>
  One element of a shape specification, \<open>int | Dim | None | _EllipsisType\<close>, plus any
  other Python object a caller may have put into the tuple. \<open>Ellipsis\<close> stands for the
  builtin \<open>...\<close> and for an instance of \<open>_EllipsisType\<close> alike (the source tests
  \<open>s is ... or isinstance(s, _EllipsisType)\<close> everywhere). \<open>Other\<close> carries the
  \<open>repr\<close> and the \<open>str\<close> of the foreign object.
\<close>

datatype spec_elem =
    Exact int
  | Symbolic dim
  | Wildcard
  | Ellipsis
  | Other (other_repr: string) (other_str: string)

type_synonym shape_spec = "spec_elem list"

subsection \<open>Strings\<close>

definition digit_char :: "nat \<Rightarrow> char" where
  "digit_char d = ''0123456789'' ! d"

fun str_nat :: "nat \<Rightarrow> string" where
  "str_nat n = (if n < 10 then [digit_char n] else str_nat (n div 10) @ [digit_char (n mod 10)])"

declare str_nat.simps [simp del]

definition str_int :: "int \<Rightarrow> string" where
  "str_int i = (if i < 0 then ''-'' @ str_nat (nat (- i)) else str_nat (nat i))"

text \<open>\<open>sep.join(parts)\<close>\<close>

fun join :: "string \<Rightarrow> string list \<Rightarrow> string" where
  "join sep [] = []"
| "join sep [p] = p"
| "join sep (p # q # ps) = p @ sep @ join sep (q # ps)"

text \<open>
  Tuple indexing \<open>t[i]\<close>: a negative index counts from the end, and an index outside
  the tuple raises \<open>IndexError\<close> (here \<open>None\<close>).
\<close>

definition getitem :: "'a list \<Rightarrow> int \<Rightarrow> 'a option" where
  "getitem t i =
     (let n = int (length t); j = (if i < 0 then n + i else i)
      in if 0 \<le> j \<and> j < n then Some (t ! nat j) else None)"

section \<open>errors.py\<close>

text \<open>
  The three subclasses of \<open>ShapeGuardError\<close>. \<open>UnificationError\<close> keeps its five
  constructor arguments as attributes; the other two keep nothing beyond the base
  class's fields.
\<close>

datatype error_class =
    UnificationError dim int string int string
  | RankMismatchError
  | DimensionMismatchError

text \<open>
  The attributes \<open>ShapeGuardError.__init__\<close> sets, with \<open>None\<close> as \<open>None\<close>.
  \<open>expected\<close> and \<open>actual\<close> are typed \<open>Any\<close> in the source; every caller in the
  repository passes the specification tuple and the shape tuple.
\<close>

record shape_guard_error =
  err_class :: error_class
  err_message :: string
  err_function :: "string option"
  err_argument :: "string option"
  err_expected :: "shape_spec option"
  err_actual :: "int list option"
  err_reason :: "string option"
  err_bindings :: "string option"

text \<open>Everything a call can raise.\<close>

datatype error =
    ShapeGuardError shape_guard_error
  | ValueError string
  | TypeError string
  | IndexError

definition ShapeGuardError_init ::
  "error_class \<Rightarrow> string \<Rightarrow> string option \<Rightarrow> string option \<Rightarrow> shape_spec option \<Rightarrow>
   int list option \<Rightarrow> string option \<Rightarrow> string option \<Rightarrow> shape_guard_error" where
  "ShapeGuardError_init cls message function argument expected actual reason bindings =
     \<lparr> err_class = cls, err_message = message, err_function = function,
       err_argument = argument, err_expected = expected, err_actual = actual,
       err_reason = reason, err_bindings = bindings \<rparr>"

definition UnificationError_init ::
  "dim \<Rightarrow> int \<Rightarrow> string \<Rightarrow> int \<Rightarrow> string \<Rightarrow> shape_guard_error" where
  "UnificationError_init d expected_value expected_source actual_value actual_source =
     (let reason =
        ''dimension '' @ [CHR 0x27] @ dim_name d @ [CHR 0x27] @ '' bound to '' @
        str_int expected_value @ '' from '' @ expected_source @ '', but got '' @
        str_int actual_value @ '' from '' @ actual_source
      in ShapeGuardError_init
           (UnificationError d expected_value expected_source actual_value actual_source)
           reason None None None None (Some reason) None)"

text \<open>\<open>expected_rank: int | str\<close> is formatted into the reason by an f-string.\<close>

fun fmt_rank :: "int + string \<Rightarrow> string" where
  "fmt_rank (Inl n) = str_int n"
| "fmt_rank (Inr s) = s"

definition RankMismatchError_init ::
  "string option \<Rightarrow> string option \<Rightarrow> int + string \<Rightarrow> int \<Rightarrow> shape_spec \<Rightarrow> int list \<Rightarrow>
   string option \<Rightarrow> shape_guard_error" where
  "RankMismatchError_init function argument expected_rank actual_rank expected_shape
       actual_shape bindings =
     (let reason = ''expected rank '' @ fmt_rank expected_rank @ '', got rank '' @
                   str_int actual_rank
      in ShapeGuardError_init RankMismatchError reason function argument
           (Some expected_shape) (Some actual_shape) (Some reason) bindings)"

definition DimensionMismatchError_init ::
  "string option \<Rightarrow> string option \<Rightarrow> int \<Rightarrow> int \<Rightarrow> int \<Rightarrow> shape_spec \<Rightarrow> int list \<Rightarrow>
   string option \<Rightarrow> shape_guard_error" where
  "DimensionMismatchError_init function argument dim_index expected_value actual_value
       expected_shape actual_shape bindings =
     (let reason = ''dim['' @ str_int dim_index @ ''] expected '' @ str_int expected_value @
                   '', got '' @ str_int actual_value
      in ShapeGuardError_init DimensionMismatchError reason function argument
           (Some expected_shape) (Some actual_shape) (Some reason) bindings)"

text \<open>
  \<open>str(d)\<close> of a specification element, as \<open>_format_shape\<close> applies it. The
  \<open>__str__\<close> of \<open>Dim\<close> and of \<open>_EllipsisType\<close> are in \<open>core.py\<close>, so both are
  parameters: \<open>str_dim\<close> and \<open>str_ellipsis\<close>.
\<close>

fun py_str :: "(dim \<Rightarrow> string) \<Rightarrow> string \<Rightarrow> spec_elem \<Rightarrow> string" where
  "py_str str_dim str_ellipsis (Exact n) = str_int n"
| "py_str str_dim str_ellipsis (Symbolic d) = str_dim d"
| "py_str str_dim str_ellipsis Wildcard = ''None''"
| "py_str str_dim str_ellipsis Ellipsis = str_ellipsis"
| "py_str str_dim str_ellipsis (Other r s) = s"

text \<open>\<open>ShapeGuardError._format_shape\<close> on a tuple; the first argument is \<open>str\<close>.\<close>

definition format_shape :: "('a \<Rightarrow> string) \<Rightarrow> 'a list \<Rightarrow> string" where
  "format_shape to_str shape = ''('' @ join '', '' (map to_str shape) @ '')''"

text \<open>Python truthiness of an optional string: neither \<open>None\<close> nor empty.\<close>

fun truthy :: "string option \<Rightarrow> bool" where
  "truthy None = False"
| "truthy (Some s) = (s \<noteq> [])"

text \<open>\<open>ShapeGuardError.__str__\<close>\<close>

definition error_str :: "(dim \<Rightarrow> string) \<Rightarrow> string \<Rightarrow> shape_guard_error \<Rightarrow> string" where
  "error_str str_dim str_ellipsis e =
     join [CHR 0x0A]
       ([''ShapeGuardError:''] @
        (if truthy (err_function e) then [''  function: '' @ the (err_function e)] else []) @
        (if truthy (err_argument e) then [''  argument: '' @ the (err_argument e)] else []) @
        (case err_expected e of None \<Rightarrow> []
         | Some shape \<Rightarrow> [''  expected: '' @ format_shape (py_str str_dim str_ellipsis) shape]) @
        (case err_actual e of None \<Rightarrow> []
         | Some shape \<Rightarrow> [''  actual:   '' @ format_shape str_int shape]) @
        (if truthy (err_reason e) then [''  reason:   '' @ the (err_reason e)] else []) @
        (if truthy (err_bindings e) then [''  bindings: '' @ the (err_bindings e)] else []))"

section \<open>The binding store\<close>

text \<open>
  \<open>UnificationContext\<close> is defined in \<open>core.py\<close>. The store is an association list
  in first-bound order from a dimension to its value and the label of where it was seen.
\<close>

type_synonym ctx = "(dim \<times> int \<times> string) list"

text \<open>
  Modelled from the spec: \<open>UnificationContext.bind\<close> of \<open>core.py\<close> is missing.
  If the dimension is unbound, record value and source. If it is bound to the same
  value: no-op, success. If it is bound to a different value: fail with a unification
  conflict carrying the dimension, the recorded value and source, and the newly
  observed value and source. A failure returns the store as it is at that moment.
\<close>

definition bind :: "ctx \<Rightarrow> dim \<Rightarrow> int \<Rightarrow> string \<Rightarrow> (error \<times> ctx) + ctx" where
  "bind ctx d v source =
     (case map_of ctx d of
        None \<Rightarrow> Inr (ctx @ [(d, v, source)])
      | Some (bound_value, bound_source) \<Rightarrow>
          if bound_value = v then Inr ctx
          else Inl (ShapeGuardError
                      (UnificationError_init d bound_value bound_source v source), ctx))"

text \<open>
  Modelled from the spec: \<open>UnificationContext.format_bindings\<close> of \<open>core.py\<close> is
  missing. It renders all current bindings as \<open>name=value\<close> pairs in first-bound
  order; an empty store renders as an explicit marker rather than an empty string. The
  spec fixes neither the marker nor the separator, so both are constants here.
\<close>

definition no_bindings_marker :: string where
  "no_bindings_marker = ''(no bindings)''"

definition format_bindings :: "ctx \<Rightarrow> string" where
  "format_bindings ctx =
     (if ctx = [] then no_bindings_marker
      else join '', '' (map (\<lambda>(d, v, source). dim_name d @ ''='' @ str_int v) ctx))"

section \<open>spec.py\<close>

text \<open>The test \<open>s is ... or isinstance(s, _EllipsisType)\<close>.\<close>

fun is_ellipsis :: "spec_elem \<Rightarrow> bool" where
  "is_ellipsis Ellipsis = True"
| "is_ellipsis _ = False"

definition has_ellipsis :: "shape_spec \<Rightarrow> bool" where
  "has_ellipsis spec = list_ex is_ellipsis spec"

definition filter_ellipsis :: "shape_spec \<Rightarrow> shape_spec" where
  "filter_ellipsis items = filter (\<lambda>s. \<not> is_ellipsis s) items"

definition ellipsis_indices :: "shape_spec \<Rightarrow> nat list" where
  "ellipsis_indices spec = map fst (filter (\<lambda>(i, s). is_ellipsis s) (enumerate 0 spec))"

definition split_ellipsis_spec :: "shape_spec \<Rightarrow> error + (shape_spec \<times> shape_spec)" where
  "split_ellipsis_spec spec =
     (if length (ellipsis_indices spec) > 1 then
        Inl (ValueError ''Shape spec cannot contain more than one ellipsis'')
      else if ellipsis_indices spec = [] then Inr (filter_ellipsis spec, [])
      else let idx = hd (ellipsis_indices spec)
           in Inr (filter_ellipsis (take idx spec), filter_ellipsis (drop (idx + 1) spec)))"

text \<open>
  \<open>_match_dim\<close>. A result is \<open>Inr\<close> the store after the call, or \<open>Inl\<close> the
  exception raised together with the store as the call left it. The branches are tried
  in the source's order: \<open>None\<close>, \<open>Dim\<close>, \<open>int\<close>, anything else. The last branch
  formats \<open>repr\<close> of the element into its message.
\<close>

fun match_dim ::
  "int \<Rightarrow> spec_elem \<Rightarrow> int \<Rightarrow> int list \<Rightarrow> shape_spec \<Rightarrow> ctx \<Rightarrow> string \<Rightarrow> (error \<times> ctx) + ctx" where
  "match_dim actual_dim Wildcard index actual_shape spec ctx source = Inr ctx"
| "match_dim actual_dim (Symbolic d) index actual_shape spec ctx source =
     bind ctx d actual_dim (source @ ''['' @ str_int index @ '']'')"
| "match_dim actual_dim (Exact n) index actual_shape spec ctx source =
     (if actual_dim \<noteq> n then
        Inl (ShapeGuardError
               (DimensionMismatchError_init None None index n actual_dim spec actual_shape
                  (Some (format_bindings ctx))), ctx)
      else Inr ctx)"
| "match_dim actual_dim Ellipsis index actual_shape spec ctx source =
     Inl (TypeError (''Invalid spec element at position '' @ str_int index @ '': '' @
                     ''Ellipsis'' @ '' (expected int, Dim, None, or ...)''), ctx)"
| "match_dim actual_dim (Other r s) index actual_shape spec ctx source =
     Inl (TypeError (''Invalid spec element at position '' @ str_int index @ '': '' @
                     r @ '' (expected int, Dim, None, or ...)''), ctx)"

text \<open>
  The loops \<open>for i, spec_dim in enumerate(part): _match_dim(actual[k], spec_dim, k, ...)\<close>
  of \<open>match_shape\<close>, where \<open>k\<close> is \<open>i\<close> for the leading part and \<open>offset + i\<close>
  for the trailing part: \<open>index\<close> is the position read from \<open>actual\<close> for the first
  remaining element. The read \<open>actual[k]\<close> happens before the call and may raise.
\<close>

fun match_dims ::
  "int list \<Rightarrow> shape_spec \<Rightarrow> string \<Rightarrow> int \<Rightarrow> shape_spec \<Rightarrow> ctx \<Rightarrow> (error \<times> ctx) + ctx" where
  "match_dims actual spec source index [] ctx = Inr ctx"
| "match_dims actual spec source index (spec_dim # rest) ctx =
     (case getitem actual index of
        None \<Rightarrow> Inl (IndexError, ctx)
      | Some actual_dim \<Rightarrow>
          (case match_dim actual_dim spec_dim index actual spec ctx source of
             Inl failure \<Rightarrow> Inl failure
           | Inr ctx' \<Rightarrow> match_dims actual spec source (index + 1) rest ctx'))"

definition match_shape :: "int list \<Rightarrow> shape_spec \<Rightarrow> ctx \<Rightarrow> string \<Rightarrow> (error \<times> ctx) + ctx" where
  "match_shape actual spec ctx source =
     (if has_ellipsis spec then
        (case split_ellipsis_spec spec of
           Inl e \<Rightarrow> Inl (e, ctx)
         | Inr (before_dims, after_dims) \<Rightarrow>
             let required_dims = length before_dims + length after_dims in
             if length actual < required_dims then
               Inl (ShapeGuardError
                      (RankMismatchError_init None None
                         (Inr (str_int (int required_dims) @ ''+'')) (int (length actual))
                         spec actual (Some (format_bindings ctx))), ctx)
             else
               (case match_dims actual spec source 0 before_dims ctx of
                  Inl failure \<Rightarrow> Inl failure
                | Inr ctx' \<Rightarrow>
                    let offset = int (length actual) - int (length after_dims)
                    in match_dims actual spec source offset after_dims ctx'))
      else if length actual \<noteq> length spec then
        Inl (ShapeGuardError
               (RankMismatchError_init None None (Inl (int (length spec)))
                  (int (length actual)) spec actual (Some (format_bindings ctx))), ctx)
      else match_dims actual spec source 0 (filter_ellipsis spec) ctx)"

text \<open>
  \<open>get_shape\<close> of \<open>_compat.py\<close>: an object either has a \<open>shape\<close> attribute, whose
  entries \<open>int(d)\<close> turns into plain integers, or it has none and only its type's name
  matters.
\<close>

datatype py_object = ArrayLike (shape: "int list") | NoShape (type_name: string)

fun get_shape :: "py_object \<Rightarrow> error + int list" where
  "get_shape (NoShape tn) =
     Inl (TypeError (''Cannot get shape from '' @ [CHR 0x27] @ tn @ [CHR 0x27] @
                     '': object has no '' @ [CHR 0x27] @ ''shape'' @ [CHR 0x27] @
                     '' attribute''))"
| "get_shape (ArrayLike sh) = Inr sh"

text \<open>
  \<open>check_shape\<close> returns a reference to a store, so stores live in a heap: a reference
  is an index into the list of all stores allocated so far, and
  \<open>UnificationContext()\<close> allocates a new empty store at the end. The handler
  \<open>except ShapeGuardError as e: e.argument = name; raise\<close> touches only that class;
  any other exception passes through. \<open>name\<close> defaults to \<open>"array"\<close>.
\<close>

type_synonym heap = "ctx list"

definition set_argument :: "string \<Rightarrow> error \<Rightarrow> error" where
  "set_argument name e =
     (case e of ShapeGuardError g \<Rightarrow> ShapeGuardError (g\<lparr>err_argument := Some name\<rparr>)
      | _ \<Rightarrow> e)"

definition check_shape ::
  "heap \<Rightarrow> py_object \<Rightarrow> shape_spec \<Rightarrow> string option \<Rightarrow> nat option \<Rightarrow> (error + nat) \<times> heap" where
  "check_shape h x spec name_arg ctx_arg =
     (let name = (case name_arg of None \<Rightarrow> ''array'' | Some n \<Rightarrow> n);
          (ctx, h1) = (case ctx_arg of None \<Rightarrow> (length h, h @ [[]]) | Some r \<Rightarrow> (r, h))
      in case get_shape x of
           Inl e \<Rightarrow> (Inl e, h1)
         | Inr actual \<Rightarrow>
             (case match_shape actual spec (h1 ! ctx) name of
                Inl (e, store) \<Rightarrow> (Inl (set_argument name e), h1[ctx := store])
              | Inr store \<Rightarrow> (Inr ctx, h1[ctx := store])))"

text \<open>\<open>format_spec\<close> and its local \<open>fmt_dim\<close>.\<close>

fun fmt_dim :: "spec_elem \<Rightarrow> string" where
  "fmt_dim Wildcard = ''*''"
| "fmt_dim Ellipsis = ''...''"
| "fmt_dim (Symbolic d) = dim_name d"
| "fmt_dim (Exact n) = str_int n"
| "fmt_dim (Other r s) = s"

definition format_spec :: "shape_spec \<Rightarrow> string" where
  "format_spec spec = ''('' @ join '', '' (map fmt_dim spec) @ '')''"

section \<open>Reference notions for stating the properties\<close>

text \<open>What a result says: whether the call returned, and the store it left behind.\<close>

fun succeeded :: "(error \<times> ctx) + ctx \<Rightarrow> bool" where
  "succeeded (Inl failure) = False"
| "succeeded (Inr c) = True"

fun final_store :: "(error \<times> ctx) + ctx \<Rightarrow> ctx" where
  "final_store (Inl (e, c)) = c"
| "final_store (Inr c) = c"

text \<open>
  The pairing the specification describes (section 4.3), written without the code's
  loops: the elements of \<open>before\<close> sit at positions \<open>0, 1, ...\<close> of the shape, and
  element \<open>i\<close> of \<open>after\<close> sits at position \<open>len(actual) - len(after) + i\<close>.
\<close>

definition leading_positions :: "shape_spec \<Rightarrow> (nat \<times> spec_elem) list" where
  "leading_positions before_dims = zip [0..<length before_dims] before_dims"

definition trailing_positions :: "int list \<Rightarrow> shape_spec \<Rightarrow> (nat \<times> spec_elem) list" where
  "trailing_positions actual after_dims =
     zip [length actual - length after_dims..<length actual] after_dims"

text \<open>
  All positions one call of the matcher visits, in order, once its rank check has
  passed: leading then trailing ones around an ellipsis, every position otherwise.
\<close>

definition positions :: "int list \<Rightarrow> shape_spec \<Rightarrow> (nat \<times> spec_elem) list" where
  "positions actual spec =
     (if has_ellipsis spec then
        (case split_ellipsis_spec spec of
           Inl e \<Rightarrow> []
         | Inr (before_dims, after_dims) \<Rightarrow>
             leading_positions before_dims @ trailing_positions actual after_dims)
      else leading_positions spec)"

text \<open>
  Checking a list of (position, element) pairs from left to right with the per-element
  check, stopping at the first failure.
\<close>

fun match_positions ::
  "int list \<Rightarrow> shape_spec \<Rightarrow> string \<Rightarrow> (nat \<times> spec_elem) list \<Rightarrow> ctx \<Rightarrow> (error \<times> ctx) + ctx" where
  "match_positions actual spec source [] ctx = Inr ctx"
| "match_positions actual spec source ((k, spec_dim) # rest) ctx =
     (case match_dim (actual ! k) spec_dim (int k) actual spec ctx source of
        Inl failure \<Rightarrow> Inl failure
      | Inr ctx' \<Rightarrow> match_positions actual spec source rest ctx')"

text \<open>Calling \<open>bind\<close> for one dimension and one value once per source label given.\<close>

fun bind_all :: "ctx \<Rightarrow> dim \<Rightarrow> int \<Rightarrow> string list \<Rightarrow> (error \<times> ctx) + ctx" where
  "bind_all ctx d v [] = Inr ctx"
| "bind_all ctx d v (source # sources) =
     (case bind ctx d v source of
        Inl failure \<Rightarrow> Inl failure
      | Inr ctx' \<Rightarrow> bind_all ctx' d v sources)"

section \<open>Basic facts\<close>

lemma getitem_in_range:
  "0 \<le> i \<Longrightarrow> i < int (length t) \<Longrightarrow> getitem t i = Some (t ! nat i)"
  by (simp add: getitem_def)

lemma bind_not_IndexError: "bind ctx d v source \<noteq> Inl (IndexError, c)"
  by (auto simp: bind_def split: option.splits)

lemma match_dim_not_IndexError:
  "match_dim actual_dim spec_dim index actual_shape spec ctx source \<noteq> Inl (IndexError, c)"
  by (cases spec_dim) (simp_all add: bind_not_IndexError)

lemma match_dims_not_IndexError:
  "0 \<le> index \<Longrightarrow> index + int (length part) \<le> int (length actual) \<Longrightarrow>
   match_dims actual spec source index part ctx \<noteq> Inl (IndexError, c)"
proof (induction part arbitrary: index ctx)
  case Nil
  then show ?case by simp
next
  case (Cons spec_dim rest)
  from Cons.prems have read: "getitem actual index = Some (actual ! nat index)"
    by (simp add: getitem_in_range)
  from Cons.prems have next_ok:
    "0 \<le> index + 1" "index + 1 + int (length rest) \<le> int (length actual)"
    by simp_all
  show ?case
    using Cons.IH [OF next_ok] match_dim_not_IndexError
    by (simp add: read split: sum.splits)
qed

lemma length_filter_ellipsis_le: "length (filter_ellipsis spec) \<le> length spec"
  by (simp add: filter_ellipsis_def)

lemma match_dims_wildcards:
  "0 \<le> index \<Longrightarrow> index + int n \<le> int (length actual) \<Longrightarrow>
   match_dims actual spec source index (replicate n Wildcard) ctx = Inr ctx"
proof (induction n arbitrary: index)
  case 0
  then show ?case by simp
next
  case (Suc n)
  then show ?case by (simp add: getitem_in_range)
qed

section \<open>Wildcards\<close>

text \<open>
  C7. For every concrete dimension value, matching it against a wildcard succeeds and
  leaves the binding store as it was: the per-element check returns the store it was
  given. Hence a specification made of wildcards only accepts every shape of its
  length without touching the store, and the specification's own example, \<open>(7, 9)\<close>
  against \<open>(None, 9)\<close>, succeeds with no binding.
\<close>

theorem wildcard_matches_without_binding:
  "match_dim actual_dim Wildcard index actual_shape spec ctx source = Inr ctx
   \<and> match_shape actual (replicate (length actual) Wildcard) ctx source = Inr ctx
   \<and> match_shape [7, 9] [Wildcard, Exact 9] ctx source = Inr ctx"
proof -
  have all_wild: "filter_ellipsis (replicate n Wildcard) = replicate n Wildcard" for n
    by (induction n) (simp_all add: filter_ellipsis_def)
  have no_ell: "\<not> has_ellipsis (replicate n Wildcard)" for n
    by (induction n) (simp_all add: has_ellipsis_def)
  have "match_shape actual (replicate (length actual) Wildcard) ctx source = Inr ctx"
    by (simp add: match_shape_def no_ell all_wild match_dims_wildcards)
  moreover have "match_shape [7, 9] [Wildcard, Exact 9] ctx source = Inr ctx"
    by (simp add: match_shape_def has_ellipsis_def filter_ellipsis_def getitem_def)
  ultimately show ?thesis by simp
qed

section \<open>Splitting at the ellipsis and visiting positions\<close>

lemma filter_enumerate_no_ellipsis:
  "\<not> list_ex is_ellipsis xs \<Longrightarrow> filter (\<lambda>(i, s). is_ellipsis s) (enumerate n xs) = []"
  by (induction xs arbitrary: n) auto

lemma ellipsis_indices_single:
  "\<not> has_ellipsis before_dims \<Longrightarrow> \<not> has_ellipsis after_dims \<Longrightarrow>
   ellipsis_indices (before_dims @ Ellipsis # after_dims) = [length before_dims]"
  by (simp add: ellipsis_indices_def has_ellipsis_def enumerate_append_eq
      filter_enumerate_no_ellipsis)

lemma filter_ellipsis_id: "\<not> has_ellipsis xs \<Longrightarrow> filter_ellipsis xs = xs"
  by (induction xs) (auto simp: has_ellipsis_def filter_ellipsis_def)

lemma has_ellipsis_around: "has_ellipsis (before_dims @ Ellipsis # after_dims)"
  by (simp add: has_ellipsis_def)

lemma split_single_ellipsis:
  "\<not> has_ellipsis before_dims \<Longrightarrow> \<not> has_ellipsis after_dims \<Longrightarrow>
   split_ellipsis_spec (before_dims @ Ellipsis # after_dims) = Inr (before_dims, after_dims)"
  by (simp add: split_ellipsis_spec_def ellipsis_indices_single filter_ellipsis_id)

lemma length_ellipsis_indices:
  "length (ellipsis_indices spec) = length (filter is_ellipsis spec)"
proof -
  have "length (filter (\<lambda>(i, s). is_ellipsis s) (enumerate n xs)) = length (filter is_ellipsis xs)"
    for n and xs :: "spec_elem list"
    by (induction xs arbitrary: n) auto
  then show ?thesis by (simp add: ellipsis_indices_def)
qed

lemma has_ellipsis_count: "has_ellipsis spec \<longleftrightarrow> 0 < length (filter is_ellipsis spec)"
  by (induction spec) (auto simp: has_ellipsis_def)

lemma split_two_or_more:
  "1 < length (filter is_ellipsis spec) \<Longrightarrow>
   split_ellipsis_spec spec = Inl (ValueError ''Shape spec cannot contain more than one ellipsis'')"
  by (simp add: split_ellipsis_spec_def length_ellipsis_indices)

lemma split_at_most_one:
  "length (filter is_ellipsis spec) \<le> 1 \<Longrightarrow> \<exists>b a. split_ellipsis_spec spec = Inr (b, a)"
  by (simp add: split_ellipsis_spec_def length_ellipsis_indices Let_def)

lemma match_positions_append:
  "match_positions actual spec source (ps @ qs) ctx =
     (case match_positions actual spec source ps ctx of
        Inl failure \<Rightarrow> Inl failure
      | Inr ctx' \<Rightarrow> match_positions actual spec source qs ctx')"
  by (induction ps arbitrary: ctx) (auto split: sum.splits)

lemma match_dims_positions:
  "n + length part \<le> length actual \<Longrightarrow>
   match_dims actual spec source (int n) part ctx =
   match_positions actual spec source (zip [n..<n + length part] part) ctx"
proof (induction part arbitrary: n ctx)
  case Nil
  then show ?case by simp
next
  case (Cons spec_dim rest)
  from Cons.prems have read: "getitem actual (int n) = Some (actual ! n)"
    by (simp add: getitem_in_range)
  have "n < n + length (spec_dim # rest)" by simp
  from upt_conv_Cons [OF this]
  have upt: "[n..<n + length (spec_dim # rest)] = n # [Suc n..<Suc n + length rest]"
    by simp
  from Cons.prems have "Suc n + length rest \<le> length actual" by simp
  from Cons.IH [OF this] have IH:
    "match_dims actual spec source (int n + 1) rest c =
     match_positions actual spec source (zip [Suc n..<Suc n + length rest] rest) c" for c
    by (simp add: add.commute)
  show ?case
    unfolding upt by (simp add: read IH split: sum.splits)
qed

lemma match_shape_ellipsis_unfold:
  assumes "\<not> has_ellipsis before_dims" "\<not> has_ellipsis after_dims"
    and "length before_dims + length after_dims \<le> length actual"
  shows "match_shape actual (before_dims @ Ellipsis # after_dims) ctx source =
    (case match_dims actual (before_dims @ Ellipsis # after_dims) source 0 before_dims ctx of
       Inl failure \<Rightarrow> Inl failure
     | Inr ctx' \<Rightarrow>
         match_dims actual (before_dims @ Ellipsis # after_dims) source
           (int (length actual) - int (length after_dims)) after_dims ctx')"
proof -
  have "\<not> length actual < length before_dims + length after_dims"
    using assms(3) by simp
  then show ?thesis
    unfolding match_shape_def
    by (simp only: has_ellipsis_around split_single_ellipsis [OF assms(1,2)] if_True if_False
        sum.case prod.case Let_def)
qed

lemma match_shape_ellipsis_positions:
  assumes "\<not> has_ellipsis before_dims" "\<not> has_ellipsis after_dims"
    and "length before_dims + length after_dims \<le> length actual"
  shows "match_shape actual (before_dims @ Ellipsis # after_dims) ctx source =
    match_positions actual (before_dims @ Ellipsis # after_dims) source
      (leading_positions before_dims @ trailing_positions actual after_dims) ctx"
proof -
  let ?spec = "before_dims @ Ellipsis # after_dims"
  let ?m = "length actual - length after_dims"
  have "0 + length before_dims \<le> length actual" using assms(3) by simp
  from match_dims_positions [OF this]
  have lead: "match_dims actual ?spec source 0 before_dims c =
      match_positions actual ?spec source (leading_positions before_dims) c" for c
    by (simp add: leading_positions_def)
  have off: "int (length actual) - int (length after_dims) = int ?m"
    using assms(3) by simp
  have m: "?m + length after_dims = length actual" using assms(3) by simp
  then have "?m + length after_dims \<le> length actual" by simp
  from match_dims_positions [OF this]
  have trail: "match_dims actual ?spec source (int ?m) after_dims c =
      match_positions actual ?spec source (trailing_positions actual after_dims) c" for c
    by (simp only: trailing_positions_def m)
  show ?thesis
    unfolding match_shape_ellipsis_unfold [OF assms] off lead trail match_positions_append ..
qed

lemma bind_failure_keeps_store: "bind ctx d v source = Inl (e, c) \<Longrightarrow> c = ctx"
  by (auto simp: bind_def split: option.splits if_splits)

lemma match_dim_failure_keeps_store:
  "match_dim actual_dim spec_dim index actual_shape spec ctx source = Inl (e, c) \<Longrightarrow> c = ctx"
  by (cases spec_dim) (auto dest: bind_failure_keeps_store split: if_splits)

lemma match_dim_success_shapes:
  "match_dim actual_dim spec_dim index actual_shape spec ctx source = Inr c \<Longrightarrow>
   match_dim actual_dim spec_dim index actual_shape' spec' ctx source = Inr c"
  by (cases spec_dim) (auto split: if_splits)

lemma match_dim_failure_shapes:
  "match_dim actual_dim spec_dim index actual_shape spec ctx source = Inl (e, c) \<Longrightarrow>
   \<exists>e'. match_dim actual_dim spec_dim index actual_shape' spec' ctx source = Inl (e', c)"
  by (cases spec_dim) (auto split: if_splits)

lemma match_positions_outcome:
  "\<forall>p \<in> set ps. actual' ! fst p = actual ! fst p \<Longrightarrow>
   succeeded (match_positions actual' spec' source ps ctx) =
   succeeded (match_positions actual spec source ps ctx)
   \<and> final_store (match_positions actual' spec' source ps ctx) =
     final_store (match_positions actual spec source ps ctx)"
proof (induction ps arbitrary: ctx)
  case Nil
  then show ?case by simp
next
  case (Cons p ps)
  obtain k spec_dim where p: "p = (k, spec_dim)" by (cases p)
  from Cons.prems p have same: "actual' ! k = actual ! k" by simp
  from Cons.prems have rest: "\<forall>p \<in> set ps. actual' ! fst p = actual ! fst p" by simp
  show ?case
  proof (cases "match_dim (actual ! k) spec_dim (int k) actual spec ctx source")
    case (Inl failure)
    obtain e c where "failure = (e, c)" by (cases failure)
    with Inl match_dim_failure_shapes [of "actual ! k" spec_dim "int k" actual spec ctx source e c actual' spec']
    show ?thesis by (auto simp: p same)
  next
    case (Inr c)
    from match_dim_success_shapes [OF this, of actual' spec'] Inr Cons.IH [OF rest, of c]
    show ?thesis by (simp add: p same)
  qed
qed

lemma leading_positions_fst: "p \<in> set (leading_positions part) \<Longrightarrow> fst p < length part"
  by (cases p) (auto simp: leading_positions_def dest: set_zip_leftD)

lemma trailing_positions_fst:
  "p \<in> set (trailing_positions actual part) \<Longrightarrow>
   length actual - length part \<le> fst p \<and> fst p < length actual"
  by (cases p) (auto simp: trailing_positions_def dest: set_zip_leftD)

lemma leading_positions_map:
  "leading_positions part = map (\<lambda>i. (i, part ! i)) [0..<length part]"
  by (rule nth_equalityI) (simp_all add: leading_positions_def)

lemma trailing_positions_map:
  "length part \<le> length actual \<Longrightarrow>
   trailing_positions actual part =
   map (\<lambda>i. (length actual - length part + i, part ! i)) [0..<length part]"
  by (rule nth_equalityI) (simp_all add: trailing_positions_def)

lemma positions_zero_width:
  "length actual = length before_dims + length after_dims \<Longrightarrow>
   leading_positions before_dims @ trailing_positions actual after_dims =
   leading_positions (before_dims @ after_dims)"
proof -
  assume len: "length actual = length before_dims + length after_dims"
  have "[0..<length before_dims + length after_dims] =
        [0..<length before_dims] @ [length before_dims..<length before_dims + length after_dims]"
    using upt_add_eq_append [of 0 "length before_dims" "length after_dims"] by simp
  then show ?thesis
    by (simp add: leading_positions_def trailing_positions_def len)
qed

lemma no_ellipsis_append:
  "\<not> has_ellipsis xs \<Longrightarrow> \<not> has_ellipsis ys \<Longrightarrow> \<not> has_ellipsis (xs @ ys)"
  by (simp add: has_ellipsis_def)

lemma match_shape_plain_positions:
  assumes "\<not> has_ellipsis spec" and "length actual = length spec"
  shows "match_shape actual spec ctx source =
         match_positions actual spec source (leading_positions spec) ctx"
proof -
  have "0 + length spec \<le> length actual" using assms(2) by simp
  from match_dims_positions [OF this]
  have "match_dims actual spec source 0 spec ctx =
        match_positions actual spec source (leading_positions spec) ctx"
    by (simp add: leading_positions_def)
  with assms show ?thesis
    by (simp add: match_shape_def filter_ellipsis_id)
qed

text \<open>Every specification with exactly one ellipsis splits in this way.\<close>

lemma one_ellipsis_decompose:
  "length (filter is_ellipsis spec) = 1 \<Longrightarrow>
   \<exists>before_dims after_dims.
     spec = before_dims @ Ellipsis # after_dims \<and>
     \<not> has_ellipsis before_dims \<and> \<not> has_ellipsis after_dims"
proof (induction spec)
  case Nil
  then show ?case by simp
next
  case (Cons x xs)
  show ?case
  proof (cases "is_ellipsis x")
    case True
    then have x: "x = Ellipsis" by (cases x) simp_all
    from True Cons.prems have "filter is_ellipsis xs = []" by simp
    then have "\<not> has_ellipsis xs"
      by (simp add: has_ellipsis_count)
    moreover have "\<not> has_ellipsis []" by (simp add: has_ellipsis_def)
    ultimately have "x # xs = [] @ Ellipsis # xs \<and> \<not> has_ellipsis [] \<and> \<not> has_ellipsis xs"
      using x by simp
    then show ?thesis by blast
  next
    case False
    with Cons.prems have "length (filter is_ellipsis xs) = 1" by simp
    from Cons.IH [OF this] obtain b a where
      ba: "xs = b @ Ellipsis # a" "\<not> has_ellipsis b" "\<not> has_ellipsis a"
      by blast
    from False ba(2) have "\<not> has_ellipsis (x # b)" by (simp add: has_ellipsis_def)
    with ba have "x # xs = (x # b) @ Ellipsis # a \<and> \<not> has_ellipsis (x # b) \<and> \<not> has_ellipsis a"
      by simp
    then show ?thesis by blast
  qed
qed

section \<open>Matching around an ellipsis\<close>

text \<open>
  C1. For a specification with exactly one ellipsis, written
  \<open>before @ [Ellipsis] @ after\<close> with no ellipsis in either part, and a shape at least
  as long as both parts together: \<open>match_shape\<close> is the left-to-right check of the
  \<open>before\<close> elements at positions \<open>0 .. len(before) - 1\<close> followed by the \<open>after\<close>
  elements, element \<open>i\<close> at position \<open>len(actual) - len(after) + i\<close>. The positions
  in between are neither checked nor bound: replacing them by any other values leaves
  success and the resulting store the same. When the shape is exactly as long as both
  parts together the ellipsis takes no position, and the call succeeds or fails, with
  the same store, as it does for the specification without the ellipsis.
\<close>

theorem ellipsis_matches_leading_and_trailing:
  assumes "\<not> has_ellipsis before_dims" and "\<not> has_ellipsis after_dims"
    and "length before_dims + length after_dims \<le> length actual"
  shows
    "match_shape actual (before_dims @ Ellipsis # after_dims) ctx source =
       match_positions actual (before_dims @ Ellipsis # after_dims) source
         (leading_positions before_dims @ trailing_positions actual after_dims) ctx
     \<and> leading_positions before_dims =
         map (\<lambda>i. (i, before_dims ! i)) [0..<length before_dims]
     \<and> trailing_positions actual after_dims =
         map (\<lambda>i. (length actual - length after_dims + i, after_dims ! i))
           [0..<length after_dims]
     \<and> (\<forall>actual'.
           length actual' = length actual \<and>
           take (length before_dims) actual' = take (length before_dims) actual \<and>
           drop (length actual - length after_dims) actual' =
             drop (length actual - length after_dims) actual \<longrightarrow>
           succeeded (match_shape actual' (before_dims @ Ellipsis # after_dims) ctx source) =
             succeeded (match_shape actual (before_dims @ Ellipsis # after_dims) ctx source) \<and>
           final_store (match_shape actual' (before_dims @ Ellipsis # after_dims) ctx source) =
             final_store (match_shape actual (before_dims @ Ellipsis # after_dims) ctx source))
     \<and> (length actual = length before_dims + length after_dims \<longrightarrow>
           succeeded (match_shape actual (before_dims @ Ellipsis # after_dims) ctx source) =
             succeeded (match_shape actual (before_dims @ after_dims) ctx source) \<and>
           final_store (match_shape actual (before_dims @ Ellipsis # after_dims) ctx source) =
             final_store (match_shape actual (before_dims @ after_dims) ctx source))"
proof -
  let ?spec = "before_dims @ Ellipsis # after_dims"
  let ?ps = "leading_positions before_dims @ trailing_positions actual after_dims"
  let ?m = "length actual - length after_dims"
  have pairing: "match_shape actual ?spec ctx source = match_positions actual ?spec source ?ps ctx"
    by (rule match_shape_ellipsis_positions [OF assms])
  have lead: "leading_positions before_dims =
      map (\<lambda>i. (i, before_dims ! i)) [0..<length before_dims]"
    by (rule leading_positions_map)
  have trail: "trailing_positions actual after_dims =
      map (\<lambda>i. (?m + i, after_dims ! i)) [0..<length after_dims]"
    using assms(3) by (simp add: trailing_positions_map)
  have middle: "succeeded (match_shape actual' ?spec ctx source) =
        succeeded (match_shape actual ?spec ctx source) \<and>
      final_store (match_shape actual' ?spec ctx source) =
        final_store (match_shape actual ?spec ctx source)"
    if len: "length actual' = length actual"
      and front: "take (length before_dims) actual' = take (length before_dims) actual"
      and rear: "drop ?m actual' = drop ?m actual"
    for actual'
  proof -
    have long': "length before_dims + length after_dims \<le> length actual'"
      using assms(3) len by simp
    have same_positions: "trailing_positions actual' after_dims = trailing_positions actual after_dims"
      by (simp add: trailing_positions_def len)
    have agree: "\<forall>p \<in> set ?ps. actual' ! fst p = actual ! fst p"
    proof
      fix p assume "p \<in> set ?ps"
      then consider "fst p < length before_dims" | "?m \<le> fst p" "fst p < length actual"
        using leading_positions_fst [of p before_dims]
          trailing_positions_fst [of p actual after_dims] by auto
      then show "actual' ! fst p = actual ! fst p"
      proof cases
        case 1
        then have "actual' ! fst p = take (length before_dims) actual' ! fst p"
          and "actual ! fst p = take (length before_dims) actual ! fst p"
          by simp_all
        with front show ?thesis by simp
      next
        case 2
        then have "actual' ! fst p = drop ?m actual' ! (fst p - ?m)"
          and "actual ! fst p = drop ?m actual ! (fst p - ?m)"
          using len by simp_all
        with rear show ?thesis by simp
      qed
    qed
    have "match_shape actual' ?spec ctx source = match_positions actual' ?spec source ?ps ctx"
      using match_shape_ellipsis_positions [OF assms(1,2) long', of ctx source]
      by (simp only: same_positions)
    with pairing match_positions_outcome [OF agree, of ?spec source ctx ?spec]
    show ?thesis by simp
  qed
  have zero: "succeeded (match_shape actual ?spec ctx source) =
        succeeded (match_shape actual (before_dims @ after_dims) ctx source) \<and>
      final_store (match_shape actual ?spec ctx source) =
        final_store (match_shape actual (before_dims @ after_dims) ctx source)"
    if exact: "length actual = length before_dims + length after_dims"
  proof -
    have "match_shape actual (before_dims @ after_dims) ctx source =
        match_positions actual (before_dims @ after_dims) source
          (leading_positions (before_dims @ after_dims)) ctx"
      using exact by (simp add: match_shape_plain_positions no_ellipsis_append assms(1,2))
    then have plain: "match_shape actual (before_dims @ after_dims) ctx source =
        match_positions actual (before_dims @ after_dims) source ?ps ctx"
      by (simp only: positions_zero_width [OF exact])
    have "\<forall>p \<in> set ?ps. actual ! fst p = actual ! fst p" by simp
    from match_positions_outcome [OF this, of ?spec source ctx "before_dims @ after_dims"]
    show ?thesis by (simp only: pairing plain)
  qed
  from pairing lead trail middle zero show ?thesis by blast
qed

theorem ellipsis_matches_leading_and_trailing_witness:
  "\<not> has_ellipsis [Symbolic (Dim 0 ''n'')] \<and> \<not> has_ellipsis [Exact 3, Exact 4]
   \<and> length [Symbolic (Dim 0 ''n'')] + length [Exact 3, Exact 4] \<le> length [2, 7, 8, 3, 4 :: int]
   \<and> match_shape [2, 7, 8, 3, 4] ([Symbolic (Dim 0 ''n'')] @ Ellipsis # [Exact 3, Exact 4]) [] ''x'' =
       Inr [(Dim 0 ''n'', 2, ''x[0]'')]
   \<and> match_shape [2, 3, 4] ([Symbolic (Dim 0 ''n'')] @ Ellipsis # [Exact 3, Exact 4]) [] ''x'' =
       Inr [(Dim 0 ''n'', 2, ''x[0]'')]"
proof -
  have h1: "\<not> has_ellipsis [Symbolic (Dim 0 ''n'')]" by (simp add: has_ellipsis_def)
  have h2: "\<not> has_ellipsis [Exact 3, Exact 4]" by (simp add: has_ellipsis_def)
  have h3: "length [Symbolic (Dim 0 ''n'')] + length [Exact 3, Exact 4] \<le> length [2, 7, 8, 3, 4 :: int]"
    by simp
  have h4: "length [Symbolic (Dim 0 ''n'')] + length [Exact 3, Exact 4] \<le> length [2, 3, 4 :: int]"
    by simp
  have five: "match_positions [2, 7, 8, 3, 4] ([Symbolic (Dim 0 ''n'')] @ Ellipsis # [Exact 3, Exact 4]) ''x''
         (leading_positions [Symbolic (Dim 0 ''n'')] @
          trailing_positions [2, 7, 8, 3, 4] [Exact 3, Exact 4]) [] = Inr [(Dim 0 ''n'', 2, ''x[0]'')]"
    by (simp add: leading_positions_def trailing_positions_def bind_def str_int_def
        str_nat.simps digit_char_def upt_conv_Cons)
  have three: "match_positions [2, 3, 4] ([Symbolic (Dim 0 ''n'')] @ Ellipsis # [Exact 3, Exact 4]) ''x''
         (leading_positions [Symbolic (Dim 0 ''n'')] @
          trailing_positions [2, 3, 4] [Exact 3, Exact 4]) [] = Inr [(Dim 0 ''n'', 2, ''x[0]'')]"
    by (simp add: leading_positions_def trailing_positions_def bind_def str_int_def
        str_nat.simps digit_char_def upt_conv_Cons)
  from ellipsis_matches_leading_and_trailing [OF h1 h2 h3, of "[]" "''x''"]
  have r5: "match_shape [2, 7, 8, 3, 4] ([Symbolic (Dim 0 ''n'')] @ Ellipsis # [Exact 3, Exact 4]) [] ''x'' =
       Inr [(Dim 0 ''n'', 2, ''x[0]'')]"
    unfolding five by (rule conjunct1)
  from ellipsis_matches_leading_and_trailing [OF h1 h2 h4, of "[]" "''x''"]
  have r3: "match_shape [2, 3, 4] ([Symbolic (Dim 0 ''n'')] @ Ellipsis # [Exact 3, Exact 4]) [] ''x'' =
       Inr [(Dim 0 ''n'', 2, ''x[0]'')]"
    unfolding three by (rule conjunct1)
  from h1 h2 h3 r5 r3 show ?thesis by (intro conjI)
qed

section \<open>No read outside the shape\<close>

lemma match_shape_not_IndexError:
  "match_shape actual spec ctx source \<noteq> Inl (IndexError, c)"
proof (cases "has_ellipsis spec")
  case True
  show ?thesis
  proof (cases "split_ellipsis_spec spec")
    case (Inl e)
    then have "e \<noteq> IndexError"
      by (auto simp: split_ellipsis_spec_def Let_def split: if_splits)
    with True Inl show ?thesis by (simp add: match_shape_def)
  next
    case (Inr parts)
    obtain before_dims after_dims where parts: "parts = (before_dims, after_dims)"
      by (cases parts)
    show ?thesis
    proof (cases "length actual < length before_dims + length after_dims")
      case True
      with \<open>has_ellipsis spec\<close> Inr parts show ?thesis
        by (simp add: match_shape_def)
    next
      case False
      then have lead: "(0::int) \<le> 0" "0 + int (length before_dims) \<le> int (length actual)"
        and trail: "0 \<le> int (length actual) - int (length after_dims)"
          "int (length actual) - int (length after_dims) + int (length after_dims)
             \<le> int (length actual)"
        by simp_all
      show ?thesis
        using \<open>has_ellipsis spec\<close> Inr parts False
          match_dims_not_IndexError [OF lead] match_dims_not_IndexError [OF trail]
        by (simp add: match_shape_def split: sum.splits)
    qed
  qed
next
  case False
  show ?thesis
  proof (cases "length actual = length spec")
    case True
    then have "(0::int) \<le> 0" "0 + int (length (filter_ellipsis spec)) \<le> int (length actual)"
      using length_filter_ellipsis_le [of spec] by simp_all
    from match_dims_not_IndexError [OF this] False True show ?thesis
      by (simp add: match_shape_def)
  next
    case False
    with \<open>\<not> has_ellipsis spec\<close> show ?thesis by (simp add: match_shape_def)
  qed
qed

text \<open>
  C9. \<open>match_shape\<close> never reads outside the shape tuple: no call raises
  \<open>IndexError\<close>, whatever the shape, the specification and the store. Once the rank
  check has passed, every index the loops use is a position of the tuple: \<open>i\<close> for
  \<open>i < len(before)\<close> and \<open>len(actual) - len(after) + i\<close> for \<open>i < len(after)\<close> around
  an ellipsis, and \<open>i < len(spec)\<close> otherwise; none of them is negative, so none wraps
  around to the end of the tuple either.
\<close>

theorem match_shape_reads_in_range:
  "match_shape actual spec ctx source \<noteq> Inl (IndexError, c)
   \<and> (has_ellipsis spec \<and> split_ellipsis_spec spec = Inr (before_dims, after_dims) \<and>
      \<not> length actual < length before_dims + length after_dims \<longrightarrow>
        (\<forall>i < length before_dims. getitem actual (int i) = Some (actual ! i)) \<and>
        (\<forall>i < length after_dims.
           0 \<le> int (length actual) - int (length after_dims) + int i \<and>
           getitem actual (int (length actual) - int (length after_dims) + int i) =
             Some (actual ! (length actual - length after_dims + i))))
   \<and> (\<not> has_ellipsis spec \<and> length actual = length spec \<longrightarrow>
        (\<forall>i < length (filter_ellipsis spec). getitem actual (int i) = Some (actual ! i)))"
proof (intro conjI impI allI)
  show "match_shape actual spec ctx source \<noteq> Inl (IndexError, c)"
    by (rule match_shape_not_IndexError)
next
  fix i
  assume "has_ellipsis spec \<and> split_ellipsis_spec spec = Inr (before_dims, after_dims) \<and>
      \<not> length actual < length before_dims + length after_dims"
    and "i < length before_dims"
  then show "getitem actual (int i) = Some (actual ! i)"
    by (simp add: getitem_def)
next
  fix i
  assume "has_ellipsis spec \<and> split_ellipsis_spec spec = Inr (before_dims, after_dims) \<and>
      \<not> length actual < length before_dims + length after_dims"
    and "i < length after_dims"
  then show "0 \<le> int (length actual) - int (length after_dims) + int i"
    by simp
next
  fix i
  assume a: "has_ellipsis spec \<and> split_ellipsis_spec spec = Inr (before_dims, after_dims) \<and>
      \<not> length actual < length before_dims + length after_dims"
    and i: "i < length after_dims"
  then have "int (length actual) - int (length after_dims) + int i =
      int (length actual - length after_dims + i)"
    by simp
  moreover have "length actual - length after_dims + i < length actual"
    using a i by linarith
  ultimately show "getitem actual (int (length actual) - int (length after_dims) + int i) =
      Some (actual ! (length actual - length after_dims + i))"
    by (simp only: getitem_in_range of_nat_0_le_iff of_nat_less_iff nat_int)
next
  fix i
  assume "\<not> has_ellipsis spec \<and> length actual = length spec"
    and "i < length (filter_ellipsis spec)"
  then show "getitem actual (int i) = Some (actual ! i)"
    using length_filter_ellipsis_le [of spec] by (simp add: getitem_def)
qed

theorem match_shape_reads_in_range_witness:
  "has_ellipsis [Exact 2, Ellipsis, Exact 3, Exact 4]
   \<and> split_ellipsis_spec [Exact 2, Ellipsis, Exact 3, Exact 4] = Inr ([Exact 2], [Exact 3, Exact 4])
   \<and> \<not> length [2, 7, 3, 4 :: int] < length [Exact 2] + length [Exact 3, Exact 4]
   \<and> (1::nat) < length [Exact 3, Exact 4]
   \<and> match_shape [2, 7, 3, 4] [Exact 2, Ellipsis, Exact 3, Exact 4] [] ''x'' \<noteq> Inl (IndexError, [])
   \<and> getitem [2, 7, 3, 4 :: int] (int (length [2, 7, 3, 4 :: int]) - int (length [Exact 3, Exact 4]) + int 1)
       = Some 4"
proof -
  have h1: "has_ellipsis [Exact 2, Ellipsis, Exact 3, Exact 4]"
    by (simp add: has_ellipsis_def)
  have h2: "split_ellipsis_spec [Exact 2, Ellipsis, Exact 3, Exact 4] =
      Inr ([Exact 2], [Exact 3, Exact 4])"
    using split_single_ellipsis [of "[Exact 2]" "[Exact 3, Exact 4]"]
    by (simp add: has_ellipsis_def)
  have h3: "\<not> length [2, 7, 3, 4 :: int] < length [Exact 2] + length [Exact 3, Exact 4]"
    by simp
  have h4: "(1::nat) < length [Exact 3, Exact 4]" by simp
  note t = match_shape_reads_in_range [of "[2, 7, 3, 4]" "[Exact 2, Ellipsis, Exact 3, Exact 4]"
      "[]" "''x''" "[]" "[Exact 2]" "[Exact 3, Exact 4]"]
  from t have r1: "match_shape [2, 7, 3, 4] [Exact 2, Ellipsis, Exact 3, Exact 4] [] ''x'' \<noteq>
      Inl (IndexError, [])"
    by (rule conjunct1)
  from t h1 h2 h3 have "\<forall>i < length [Exact 3, Exact 4].
      0 \<le> int (length [2, 7, 3, 4 :: int]) - int (length [Exact 3, Exact 4]) + int i \<and>
      getitem [2, 7, 3, 4 :: int] (int (length [2, 7, 3, 4 :: int]) - int (length [Exact 3, Exact 4]) + int i) =
      Some ([2, 7, 3, 4] ! (length [2, 7, 3, 4 :: int] - length [Exact 3, Exact 4] + i))"
    by blast
  with h4 have "getitem [2, 7, 3, 4 :: int]
      (int (length [2, 7, 3, 4 :: int]) - int (length [Exact 3, Exact 4]) + int 1) =
      Some ([2, 7, 3, 4] ! (length [2, 7, 3, 4 :: int] - length [Exact 3, Exact 4] + 1))"
    by blast
  then have r2: "getitem [2, 7, 3, 4 :: int]
      (int (length [2, 7, 3, 4 :: int]) - int (length [Exact 3, Exact 4]) + int 1) = Some 4"
    by simp
  from h1 h2 h3 h4 r1 r2 show ?thesis by (intro conjI)
qed

section \<open>Rank is checked first\<close>

lemma bind_error_class:
  "bind ctx d v source = Inl (ShapeGuardError g, c) \<Longrightarrow>
   \<exists>bv bs. err_class g = UnificationError d bv bs v source"
  by (auto simp: bind_def UnificationError_init_def ShapeGuardError_init_def Let_def
      split: option.splits if_splits)

lemma match_dim_not_rank:
  "match_dim actual_dim spec_dim index actual_shape spec ctx source = Inl (ShapeGuardError g, c) \<Longrightarrow>
   err_class g \<noteq> RankMismatchError"
  by (cases spec_dim)
    (auto simp: DimensionMismatchError_init_def ShapeGuardError_init_def Let_def
      dest: bind_error_class split: if_splits)

lemma match_dims_not_rank:
  "match_dims actual spec source index part ctx = Inl (ShapeGuardError g, c) \<Longrightarrow>
   err_class g \<noteq> RankMismatchError"
proof (induction part arbitrary: index ctx)
  case Nil
  then show ?case by simp
next
  case (Cons spec_dim rest)
  then show ?case
    by (auto split: option.splits sum.splits dest: match_dim_not_rank)
qed

lemma rank_error_class:
  "err_class (RankMismatchError_init f a er ar es as b) = RankMismatchError"
  by (simp add: RankMismatchError_init_def ShapeGuardError_init_def Let_def)

text \<open>
  C3. For a well-formed specification (at most one ellipsis, so that the split into
  \<open>before\<close> and \<open>after\<close> is defined), \<open>match_shape\<close> raises a \<open>RankMismatchError\<close>
  exactly when the specification has no ellipsis and the lengths differ, or it has an
  ellipsis and the shape is shorter than \<open>len(before) + len(after)\<close>. In the first case
  the expected rank is the exact number, in the second it is the minimum followed by
  \<open>+\<close>. The error is then raised with the store untouched and whatever the dimensions
  hold: the rank check comes before every per-dimension check.
\<close>

theorem rank_mismatch_exactly_on_bad_length:
  assumes "split_ellipsis_spec spec = Inr (before_dims, after_dims)"
  shows
    "(has_ellipsis spec \<and> length actual < length before_dims + length after_dims \<longrightarrow>
        match_shape actual spec ctx source =
          Inl (ShapeGuardError
                 (RankMismatchError_init None None
                    (Inr (str_int (int (length before_dims + length after_dims)) @ ''+''))
                    (int (length actual)) spec actual (Some (format_bindings ctx))), ctx))
     \<and> (\<not> has_ellipsis spec \<and> length actual \<noteq> length spec \<longrightarrow>
        match_shape actual spec ctx source =
          Inl (ShapeGuardError
                 (RankMismatchError_init None None (Inl (int (length spec)))
                    (int (length actual)) spec actual (Some (format_bindings ctx))), ctx))
     \<and> ((\<exists>g c. match_shape actual spec ctx source = Inl (ShapeGuardError g, c) \<and>
               err_class g = RankMismatchError) \<longleftrightarrow>
         (if has_ellipsis spec then length actual < length before_dims + length after_dims
          else length actual \<noteq> length spec))"
proof -
  have short: "match_shape actual spec ctx source =
      Inl (ShapeGuardError
             (RankMismatchError_init None None
                (Inr (str_int (int (length before_dims + length after_dims)) @ ''+''))
                (int (length actual)) spec actual (Some (format_bindings ctx))), ctx)"
    if "has_ellipsis spec" "length actual < length before_dims + length after_dims"
    using that assms by (simp add: match_shape_def)
  have differ: "match_shape actual spec ctx source =
      Inl (ShapeGuardError
             (RankMismatchError_init None None (Inl (int (length spec)))
                (int (length actual)) spec actual (Some (format_bindings ctx))), ctx)"
    if "\<not> has_ellipsis spec" "length actual \<noteq> length spec"
    using that by (simp add: match_shape_def)
  have only_then: "err_class g \<noteq> RankMismatchError"
    if res: "match_shape actual spec ctx source = Inl (ShapeGuardError g, c)"
      and ok: "\<not> (if has_ellipsis spec then length actual < length before_dims + length after_dims
                else length actual \<noteq> length spec)"
    for g c
  proof (cases "has_ellipsis spec")
    case True
    with ok have long: "\<not> length actual < length before_dims + length after_dims" by simp
    from res True assms long
    have "(case match_dims actual spec source 0 before_dims ctx of
             Inl failure \<Rightarrow> Inl failure
           | Inr ctx' \<Rightarrow>
               match_dims actual spec source
                 (int (length actual) - int (length after_dims)) after_dims ctx') =
          Inl (ShapeGuardError g, c)"
      by (auto simp: match_shape_def Let_def split: sum.splits)
    then show ?thesis
      by (auto split: sum.splits dest: match_dims_not_rank)
  next
    case False
    with ok have "length actual = length spec" by simp
    with res False have "match_dims actual spec source 0 (filter_ellipsis spec) ctx =
        Inl (ShapeGuardError g, c)"
      by (simp add: match_shape_def)
    then show ?thesis by (rule match_dims_not_rank)
  qed
  have iff: "(\<exists>g c. match_shape actual spec ctx source = Inl (ShapeGuardError g, c) \<and>
               err_class g = RankMismatchError) \<longleftrightarrow>
         (if has_ellipsis spec then length actual < length before_dims + length after_dims
          else length actual \<noteq> length spec)"
  proof
    assume "\<exists>g c. match_shape actual spec ctx source = Inl (ShapeGuardError g, c) \<and>
               err_class g = RankMismatchError"
    with only_then show "if has_ellipsis spec
        then length actual < length before_dims + length after_dims
        else length actual \<noteq> length spec"
      by blast
  next
    assume bad: "if has_ellipsis spec then length actual < length before_dims + length after_dims
        else length actual \<noteq> length spec"
    show "\<exists>g c. match_shape actual spec ctx source = Inl (ShapeGuardError g, c) \<and>
               err_class g = RankMismatchError"
    proof (cases "has_ellipsis spec")
      case True
      with bad short show ?thesis by (simp add: rank_error_class)
    next
      case False
      with bad differ show ?thesis by (simp add: rank_error_class)
    qed
  qed
  from short differ iff show ?thesis by blast
qed

theorem rank_mismatch_exactly_on_bad_length_witness:
  "split_ellipsis_spec [Ellipsis, Exact 3, Exact 4] = Inr ([], [Exact 3, Exact 4])
   \<and> has_ellipsis [Ellipsis, Exact 3, Exact 4]
   \<and> length [9 :: int] < length ([] :: shape_spec) + length [Exact 3, Exact 4]
   \<and> match_shape [9] [Ellipsis, Exact 3, Exact 4] [] ''x'' =
       Inl (ShapeGuardError
              \<lparr> err_class = RankMismatchError, err_message = ''expected rank 2+, got rank 1'',
                err_function = None, err_argument = None,
                err_expected = Some [Ellipsis, Exact 3, Exact 4], err_actual = Some [9],
                err_reason = Some ''expected rank 2+, got rank 1'',
                err_bindings = Some ''(no bindings)'' \<rparr>, [])"
proof -
  have h1: "split_ellipsis_spec [Ellipsis, Exact 3, Exact 4] = Inr ([], [Exact 3, Exact 4])"
    using split_single_ellipsis [of "[]" "[Exact 3, Exact 4]"]
    by (simp add: has_ellipsis_def)
  have h2: "has_ellipsis [Ellipsis, Exact 3, Exact 4]" by (simp add: has_ellipsis_def)
  have h3: "length [9 :: int] < length ([] :: shape_spec) + length [Exact 3, Exact 4]" by simp
  from rank_mismatch_exactly_on_bad_length [OF h1, of "[9]" "[]" "''x''"] h2 h3
  have "match_shape [9] [Ellipsis, Exact 3, Exact 4] [] ''x'' =
          Inl (ShapeGuardError
                 (RankMismatchError_init None None
                    (Inr (str_int (int (length ([] :: shape_spec) + length [Exact 3, Exact 4])) @ ''+''))
                    (int (length [9 :: int])) [Ellipsis, Exact 3, Exact 4] [9]
                    (Some (format_bindings []))), [])"
    by blast
  then have r: "match_shape [9] [Ellipsis, Exact 3, Exact 4] [] ''x'' =
       Inl (ShapeGuardError
              \<lparr> err_class = RankMismatchError, err_message = ''expected rank 2+, got rank 1'',
                err_function = None, err_argument = None,
                err_expected = Some [Ellipsis, Exact 3, Exact 4], err_actual = Some [9],
                err_reason = Some ''expected rank 2+, got rank 1'',
                err_bindings = Some ''(no bindings)'' \<rparr>, [])"
    by (simp add: RankMismatchError_init_def ShapeGuardError_init_def Let_def str_int_def
        str_nat.simps digit_char_def format_bindings_def no_bindings_marker_def)
  from h1 h2 h3 r show ?thesis by (intro conjI)
qed

section \<open>Rebinding, and where a failure leaves the store\<close>

lemma bind_same_value:
  "map_of ctx d = Some (v, s) \<Longrightarrow> bind ctx d v source = Inr ctx"
  by (simp add: bind_def)

lemma bind_all_same_value:
  "map_of ctx d = Some (v, s) \<Longrightarrow> bind_all ctx d v sources = Inr ctx"
  by (induction sources) (simp_all add: bind_same_value)

text \<open>
  C8. For every store in which a dimension is already bound to a value, binding the
  same dimension to the same value again, any number of times and from any sources,
  succeeds every time and returns the store unchanged; binding it to a different value
  fails with a \<open>UnificationError\<close> that reports the recorded value and source and the
  new ones, and the store still holds the old binding.
\<close>

theorem rebinding_is_idempotent:
  assumes "map_of ctx d = Some (v, s)"
  shows "bind_all ctx d v sources = Inr ctx
    \<and> (\<forall>v' source. v' \<noteq> v \<longrightarrow>
          bind ctx d v' source =
            Inl (ShapeGuardError (UnificationError_init d v s v' source), ctx))"
  using assms by (simp add: bind_all_same_value bind_def)

theorem rebinding_is_idempotent_witness:
  "map_of [(Dim 0 ''n'', 5, ''x[0]'')] (Dim 0 ''n'') = Some (5, ''x[0]'')
   \<and> bind_all [(Dim 0 ''n'', 5, ''x[0]'')] (Dim 0 ''n'') 5 [''y[0]'', ''z[1]'', ''w[2]''] =
       Inr [(Dim 0 ''n'', 5, ''x[0]'')]
   \<and> bind [(Dim 0 ''n'', 5, ''x[0]'')] (Dim 0 ''n'') 6 ''y[0]'' =
       Inl (ShapeGuardError (UnificationError_init (Dim 0 ''n'') 5 ''x[0]'' 6 ''y[0]''),
            [(Dim 0 ''n'', 5, ''x[0]'')])"
proof -
  have h: "map_of [(Dim 0 ''n'', 5, ''x[0]'')] (Dim 0 ''n'') = Some (5, ''x[0]'')" by simp
  have "(6::int) \<noteq> 5" by simp
  with rebinding_is_idempotent [OF h, of "[''y[0]'', ''z[1]'', ''w[2]'']"] h
  show ?thesis by blast
qed

lemma bind_extends: "bind ctx d v source = Inr c \<Longrightarrow> \<exists>added. c = ctx @ added"
  by (auto simp: bind_def split: option.splits if_splits)

lemma match_dim_extends:
  "match_dim actual_dim spec_dim index actual_shape spec ctx source = Inr c \<Longrightarrow>
   \<exists>added. c = ctx @ added"
  by (cases spec_dim) (auto dest: bind_extends split: if_splits)

lemma match_positions_extends:
  "final_store (match_positions actual spec source ps ctx) = c \<Longrightarrow> \<exists>added. c = ctx @ added"
proof (induction ps arbitrary: ctx)
  case Nil
  then show ?case by simp
next
  case (Cons p ps)
  obtain k spec_dim where p: "p = (k, spec_dim)" by (cases p)
  show ?case
  proof (cases "match_dim (actual ! k) spec_dim (int k) actual spec ctx source")
    case (Inl failure)
    obtain e c' where f: "failure = (e, c')" by (cases failure)
    with Inl have "c' = ctx" by (auto dest: match_dim_failure_keeps_store)
    with Cons.prems Inl f p show ?thesis by simp
  next
    case (Inr c')
    from match_dim_extends [OF this] obtain a1 where a1: "c' = ctx @ a1" by blast
    from Cons.prems Inr p have "final_store (match_positions actual spec source ps c') = c"
      by simp
    from Cons.IH [OF this] obtain a2 where "c = c' @ a2" by blast
    with a1 show ?thesis by simp
  qed
qed

lemma match_positions_failure:
  "match_positions actual spec source ps ctx = Inl (e, c) \<Longrightarrow>
   \<exists>k < length ps.
     match_positions actual spec source (take k ps) ctx = Inr c \<and>
     match_dim (actual ! fst (ps ! k)) (snd (ps ! k)) (int (fst (ps ! k))) actual spec c source =
       Inl (e, c)"
proof (induction ps arbitrary: ctx)
  case Nil
  then show ?case by simp
next
  case (Cons p ps)
  obtain j spec_dim where p: "p = (j, spec_dim)" by (cases p)
  show ?case
  proof (cases "match_dim (actual ! j) spec_dim (int j) actual spec ctx source")
    case (Inl failure)
    with Cons.prems p have f: "failure = (e, c)" by simp
    with Inl have "c = ctx" by (auto dest: match_dim_failure_keeps_store)
    with Inl f p have "match_positions actual spec source (take 0 (p # ps)) ctx = Inr c \<and>
        match_dim (actual ! fst ((p # ps) ! 0)) (snd ((p # ps) ! 0)) (int (fst ((p # ps) ! 0)))
          actual spec c source = Inl (e, c)"
      by simp
    then show ?thesis by (intro exI [of _ 0]) simp
  next
    case (Inr c')
    with Cons.prems p have "match_positions actual spec source ps c' = Inl (e, c)" by simp
    from Cons.IH [OF this] obtain k where k: "k < length ps"
      "match_positions actual spec source (take k ps) c' = Inr c"
      "match_dim (actual ! fst (ps ! k)) (snd (ps ! k)) (int (fst (ps ! k))) actual spec c source =
         Inl (e, c)"
      by blast
    with Inr p have "match_positions actual spec source (take (Suc k) (p # ps)) ctx = Inr c \<and>
        match_dim (actual ! fst ((p # ps) ! Suc k)) (snd ((p # ps) ! Suc k))
          (int (fst ((p # ps) ! Suc k))) actual spec c source = Inl (e, c)"
      by simp
    with k(1) show ?thesis by (intro exI [of _ "Suc k"]) simp
  qed
qed

lemma match_shape_positions:
  assumes split: "split_ellipsis_spec spec = Inr (before_dims, after_dims)"
    and rank: "if has_ellipsis spec then \<not> length actual < length before_dims + length after_dims
               else length actual = length spec"
  shows "match_shape actual spec ctx source =
         match_positions actual spec source (positions actual spec) ctx"
proof (cases "has_ellipsis spec")
  case True
  with rank have long: "length before_dims + length after_dims \<le> length actual" by simp
  let ?m = "length actual - length after_dims"
  have "0 + length before_dims \<le> length actual" using long by simp
  from match_dims_positions [OF this]
  have lead: "match_dims actual spec source 0 before_dims c =
      match_positions actual spec source (leading_positions before_dims) c" for c
    by (simp add: leading_positions_def)
  have off: "int (length actual) - int (length after_dims) = int ?m"
    using long by simp
  have m: "?m + length after_dims = length actual" using long by simp
  then have "?m + length after_dims \<le> length actual" by simp
  from match_dims_positions [OF this]
  have trail: "match_dims actual spec source (int ?m) after_dims c =
      match_positions actual spec source (trailing_positions actual after_dims) c" for c
    by (simp only: trailing_positions_def m)
  have pos: "positions actual spec =
      leading_positions before_dims @ trailing_positions actual after_dims"
    using True split by (simp add: positions_def)
  have "match_shape actual spec ctx source =
    (case match_dims actual spec source 0 before_dims ctx of
       Inl failure \<Rightarrow> Inl failure
     | Inr ctx' \<Rightarrow>
         match_dims actual spec source
           (int (length actual) - int (length after_dims)) after_dims ctx')"
    using True split rank by (simp add: match_shape_def Let_def split: sum.splits)
  then show ?thesis
    unfolding off lead trail pos match_positions_append .
next
  case False
  with rank have "length actual = length spec" by simp
  with False show ?thesis
    by (simp add: match_shape_plain_positions positions_def)
qed

lemma match_shape_early_failure:
  "match_shape actual spec ctx source = Inl (e, c) \<Longrightarrow>
   (has_ellipsis spec \<and> (\<exists>err. split_ellipsis_spec spec = Inl err)) \<or>
   (\<exists>before_dims after_dims. split_ellipsis_spec spec = Inr (before_dims, after_dims) \<and>
      (if has_ellipsis spec then length actual < length before_dims + length after_dims
       else length actual \<noteq> length spec)) \<Longrightarrow>
   c = ctx \<and> ((\<exists>msg. e = ValueError msg) \<or>
              (\<exists>g. e = ShapeGuardError g \<and> err_class g = RankMismatchError))"
  by (auto simp: match_shape_def Let_def split_ellipsis_spec_def rank_error_class
      split: if_splits)

text \<open>
  C5. When \<open>match_shape\<close> fails, the store is exactly the one the failing element was
  given. Either the call failed before any element was looked at (more than one
  ellipsis, or a rank mismatch) and the store is the caller's, or some element \<open>k\<close> of
  the visited positions failed: then the elements before it all succeeded and produced
  precisely the store \<open>c\<close> that the failure leaves, and the failing element, run on
  \<open>c\<close>, returned \<open>c\<close> untouched. In both cases \<open>c\<close> is the caller's store followed by
  the bindings added on the way, so nothing that was bound is lost.
\<close>

theorem failure_leaves_store_of_failing_element:
  assumes "match_shape actual spec ctx source = Inl (e, c)"
  shows
    "((c = ctx \<and> ((\<exists>msg. e = ValueError msg) \<or>
                   (\<exists>g. e = ShapeGuardError g \<and> err_class g = RankMismatchError)))
      \<or> (\<exists>k < length (positions actual spec).
            match_positions actual spec source (take k (positions actual spec)) ctx = Inr c \<and>
            match_dim (actual ! fst (positions actual spec ! k)) (snd (positions actual spec ! k))
              (int (fst (positions actual spec ! k))) actual spec c source = Inl (e, c)))
     \<and> (\<exists>added. c = ctx @ added)"
proof -
  let ?early = "c = ctx \<and> ((\<exists>msg. e = ValueError msg) \<or>
                   (\<exists>g. e = ShapeGuardError g \<and> err_class g = RankMismatchError))"
  let ?ps = "positions actual spec"
  let ?late = "\<exists>k < length ?ps.
            match_positions actual spec source (take k ?ps) ctx = Inr c \<and>
            match_dim (actual ! fst (?ps ! k)) (snd (?ps ! k))
              (int (fst (?ps ! k))) actual spec c source = Inl (e, c)"
  have main: "?early \<or> ?late"
  proof (cases "split_ellipsis_spec spec")
    case (Inl err)
    then have "has_ellipsis spec"
      by (auto simp: split_ellipsis_spec_def Let_def has_ellipsis_count
          length_ellipsis_indices split: if_splits)
    with Inl match_shape_early_failure [OF assms] show ?thesis by blast
  next
    case (Inr parts)
    obtain before_dims after_dims where parts: "parts = (before_dims, after_dims)"
      by (cases parts)
    show ?thesis
    proof (cases "if has_ellipsis spec then length actual < length before_dims + length after_dims
       else length actual \<noteq> length spec")
      case True
      with Inr parts match_shape_early_failure [OF assms] show ?thesis by blast
    next
      case False
      then have "if has_ellipsis spec
          then \<not> length actual < length before_dims + length after_dims
          else length actual = length spec"
        by (simp split: if_splits)
      from match_shape_positions [OF Inr [unfolded parts] this, of ctx source] assms
      have "match_positions actual spec source ?ps ctx = Inl (e, c)" by simp
      from match_positions_failure [OF this] show ?thesis by blast
    qed
  qed
  have "\<exists>added. c = ctx @ added"
    using main
  proof
    assume ?early
    then have "c = ctx @ []" by simp
    then show ?thesis by blast
  next
    assume ?late
    then obtain k where "match_positions actual spec source (take k ?ps) ctx = Inr c" by blast
    then have "final_store (match_positions actual spec source (take k ?ps) ctx) = c" by simp
    then show ?thesis by (rule match_positions_extends)
  qed
  with main show ?thesis by blast
qed

theorem failure_leaves_store_of_failing_element_witness:
  "match_shape [5, 6, 7] [Symbolic (Dim 0 ''n''), Symbolic (Dim 1 ''m''), Symbolic (Dim 0 ''n'')] []
       ''x'' =
     Inl (ShapeGuardError (UnificationError_init (Dim 0 ''n'') 5 ''x[0]'' 7 ''x[2]''),
          [(Dim 0 ''n'', 5, ''x[0]''), (Dim 1 ''m'', 6, ''x[1]'')])
   \<and> (\<exists>k < length (positions [5, 6, 7]
                  [Symbolic (Dim 0 ''n''), Symbolic (Dim 1 ''m''), Symbolic (Dim 0 ''n'')]).
        match_positions [5, 6, 7]
          [Symbolic (Dim 0 ''n''), Symbolic (Dim 1 ''m''), Symbolic (Dim 0 ''n'')] ''x''
          (take k (positions [5, 6, 7]
                  [Symbolic (Dim 0 ''n''), Symbolic (Dim 1 ''m''), Symbolic (Dim 0 ''n'')])) [] =
        Inr [(Dim 0 ''n'', 5, ''x[0]''), (Dim 1 ''m'', 6, ''x[1]'')])
   \<and> (\<exists>added. [(Dim 0 ''n'', 5, ''x[0]''), (Dim 1 ''m'', 6, ''x[1]'')] = ([] :: ctx) @ added)"
proof -
  let ?spec = "[Symbolic (Dim 0 ''n''), Symbolic (Dim 1 ''m''), Symbolic (Dim 0 ''n'')]"
  let ?c = "[(Dim 0 ''n'', 5, ''x[0]''), (Dim 1 ''m'', 6, ''x[1]'')] :: ctx"
  let ?e = "ShapeGuardError (UnificationError_init (Dim 0 ''n'') 5 ''x[0]'' 7 ''x[2]'')"
  have h: "match_shape [5, 6, 7] ?spec [] ''x'' = Inl (?e, ?c)"
    by (simp add: match_shape_def has_ellipsis_def filter_ellipsis_def getitem_def bind_def
        str_int_def str_nat.simps digit_char_def)
  have not_value: "\<not> (\<exists>msg. ?e = ValueError msg)" by simp
  have not_rank: "\<not> (\<exists>g. ?e = ShapeGuardError g \<and> err_class g = RankMismatchError)"
    by (simp add: UnificationError_init_def ShapeGuardError_init_def Let_def)
  note t = failure_leaves_store_of_failing_element [OF h]
  from t not_value not_rank
  have late: "\<exists>k < length (positions [5, 6, 7] ?spec).
        match_positions [5, 6, 7] ?spec ''x'' (take k (positions [5, 6, 7] ?spec)) [] = Inr ?c"
    by blast
  from t have ext: "\<exists>added. ?c = ([] :: ctx) @ added" by (rule conjunct2)
  from h late ext show ?thesis by (intro conjI)
qed

section \<open>What a diagnostic carries\<close>

lemma bind_diagnostic:
  "bind ctx d v source = Inl (ShapeGuardError g, c) \<Longrightarrow>
   \<exists>bound_value bound_source.
     g = UnificationError_init d bound_value bound_source v source \<and>
     map_of c d = Some (bound_value, bound_source) \<and> v \<noteq> bound_value"
  by (auto simp: bind_def split: option.splits if_splits)

lemma unification_fields:
  "err_class (UnificationError_init d bv bs v s) = UnificationError d bv bs v s"
  "err_expected (UnificationError_init d bv bs v s) = None"
  "err_actual (UnificationError_init d bv bs v s) = None"
  "err_bindings (UnificationError_init d bv bs v s) = None"
  "err_reason (UnificationError_init d bv bs v s) = Some (err_message (UnificationError_init d bv bs v s))"
  "err_message (UnificationError_init d bv bs v s) \<noteq> []"
  by (simp_all add: UnificationError_init_def ShapeGuardError_init_def Let_def)

lemma dimension_fields:
  "err_class (DimensionMismatchError_init f a i ev av es as b) = DimensionMismatchError"
  "err_expected (DimensionMismatchError_init f a i ev av es as b) = Some es"
  "err_actual (DimensionMismatchError_init f a i ev av es as b) = Some as"
  "err_bindings (DimensionMismatchError_init f a i ev av es as b) = b"
  "err_reason (DimensionMismatchError_init f a i ev av es as b) =
     Some (err_message (DimensionMismatchError_init f a i ev av es as b))"
  "err_message (DimensionMismatchError_init f a i ev av es as b) \<noteq> []"
  by (simp_all add: DimensionMismatchError_init_def ShapeGuardError_init_def Let_def)

lemma rank_fields:
  "err_class (RankMismatchError_init f a er ar es as b) = RankMismatchError"
  "err_expected (RankMismatchError_init f a er ar es as b) = Some es"
  "err_actual (RankMismatchError_init f a er ar es as b) = Some as"
  "err_bindings (RankMismatchError_init f a er ar es as b) = b"
  "err_reason (RankMismatchError_init f a er ar es as b) =
     Some (err_message (RankMismatchError_init f a er ar es as b))"
  "err_message (RankMismatchError_init f a er ar es as b) \<noteq> []"
  by (simp_all add: RankMismatchError_init_def ShapeGuardError_init_def Let_def)

lemma match_dim_diagnostic:
  assumes "match_dim actual_dim spec_dim index actual_shape spec ctx source =
           Inl (ShapeGuardError g, c)"
  shows "(case err_class g of
            UnificationError d bound_value bound_source new_value new_source \<Rightarrow>
              err_expected g = None \<and> err_actual g = None \<and> err_bindings g = None \<and>
              err_reason g = Some (err_message g) \<and> err_message g \<noteq> [] \<and>
              map_of c d = Some (bound_value, bound_source) \<and> new_value \<noteq> bound_value
          | RankMismatchError \<Rightarrow> False
          | DimensionMismatchError \<Rightarrow>
              err_expected g = Some spec \<and> err_actual g = Some actual_shape \<and>
              err_bindings g = Some (format_bindings c) \<and>
              err_reason g = Some (err_message g) \<and> err_message g \<noteq> [])"
proof (cases spec_dim)
  case (Symbolic d)
  with assms obtain bv bs where
    "g = UnificationError_init d bv bs actual_dim (source @ ''['' @ str_int index @ '']'')"
    "map_of c d = Some (bv, bs)" "actual_dim \<noteq> bv"
    by (auto dest: bind_diagnostic)
  then show ?thesis by (simp add: unification_fields)
next
  case (Exact n)
  with assms show ?thesis by (auto simp: dimension_fields split: if_splits)
qed (use assms in simp_all)

lemma match_dims_diagnostic:
  assumes "match_dims actual spec source index part ctx = Inl (ShapeGuardError g, c)"
  shows "(case err_class g of
            UnificationError d bound_value bound_source new_value new_source \<Rightarrow>
              err_expected g = None \<and> err_actual g = None \<and> err_bindings g = None \<and>
              err_reason g = Some (err_message g) \<and> err_message g \<noteq> [] \<and>
              map_of c d = Some (bound_value, bound_source) \<and> new_value \<noteq> bound_value
          | RankMismatchError \<Rightarrow> False
          | DimensionMismatchError \<Rightarrow>
              err_expected g = Some spec \<and> err_actual g = Some actual \<and>
              err_bindings g = Some (format_bindings c) \<and>
              err_reason g = Some (err_message g) \<and> err_message g \<noteq> [])"
  using assms
proof (induction part arbitrary: index ctx)
  case Nil
  then show ?case by simp
next
  case (Cons spec_dim rest)
  show ?case
  proof (cases "getitem actual index")
    case None
    with Cons.prems show ?thesis by simp
  next
    case (Some actual_dim)
    show ?thesis
    proof (cases "match_dim actual_dim spec_dim index actual spec ctx source")
      case (Inl failure)
      with Cons.prems Some
      have "match_dim actual_dim spec_dim index actual spec ctx source =
            Inl (ShapeGuardError g, c)"
        by simp
      then show ?thesis by (rule match_dim_diagnostic)
    next
      case (Inr ctx')
      with Cons.prems Some
      have "match_dims actual spec source (index + 1) rest ctx' = Inl (ShapeGuardError g, c)"
        by simp
      then show ?thesis by (rule Cons.IH)
    qed
  qed
qed

text \<open>
  C2, as the code has it. Every \<open>RankMismatchError\<close> and \<open>DimensionMismatchError\<close>
  that \<open>match_shape\<close> raises carries the specification as \<open>expected\<close>, the shape as
  \<open>actual\<close>, a non-empty reason, and as \<open>bindings\<close> the formatted store of the moment
  of failure. A conflict on a symbolic dimension surfaces as the \<open>UnificationError\<close>
  that \<open>bind\<close> raised, untouched: it names the dimension, the recorded value and source
  (the store still holds them) and the new value and source, and has a non-empty
  reason, but its \<open>expected\<close>, \<open>actual\<close> and \<open>bindings\<close> are \<open>None\<close>.
\<close>

theorem diagnostic_fields_of_failures:
  assumes "match_shape actual spec ctx source = Inl (ShapeGuardError g, c)"
  shows "(case err_class g of
            UnificationError d bound_value bound_source new_value new_source \<Rightarrow>
              err_expected g = None \<and> err_actual g = None \<and> err_bindings g = None \<and>
              err_reason g = Some (err_message g) \<and> err_message g \<noteq> [] \<and>
              map_of c d = Some (bound_value, bound_source) \<and> new_value \<noteq> bound_value
          | RankMismatchError \<Rightarrow>
              err_expected g = Some spec \<and> err_actual g = Some actual \<and>
              err_bindings g = Some (format_bindings c) \<and>
              err_reason g = Some (err_message g) \<and> err_message g \<noteq> [] \<and> c = ctx
          | DimensionMismatchError \<Rightarrow>
              err_expected g = Some spec \<and> err_actual g = Some actual \<and>
              err_bindings g = Some (format_bindings c) \<and>
              err_reason g = Some (err_message g) \<and> err_message g \<noteq> [])"
proof -
  let ?goal = "\<lambda>g c. (case err_class g of
            UnificationError d bound_value bound_source new_value new_source \<Rightarrow>
              err_expected g = None \<and> err_actual g = None \<and> err_bindings g = None \<and>
              err_reason g = Some (err_message g) \<and> err_message g \<noteq> [] \<and>
              map_of c d = Some (bound_value, bound_source) \<and> new_value \<noteq> bound_value
          | RankMismatchError \<Rightarrow>
              err_expected g = Some spec \<and> err_actual g = Some actual \<and>
              err_bindings g = Some (format_bindings c) \<and>
              err_reason g = Some (err_message g) \<and> err_message g \<noteq> [] \<and> c = ctx
          | DimensionMismatchError \<Rightarrow>
              err_expected g = Some spec \<and> err_actual g = Some actual \<and>
              err_bindings g = Some (format_bindings c) \<and>
              err_reason g = Some (err_message g) \<and> err_message g \<noteq> [])"
  have loop: "?goal g c"
    if "match_dims actual spec source index part ctx' = Inl (ShapeGuardError g, c)"
    for index part ctx'
    using match_dims_diagnostic [OF that] by (cases "err_class g") simp_all
  have rank: "?goal (RankMismatchError_init f a er ar spec actual (Some (format_bindings ctx))) ctx"
    for f a er ar
    by (simp add: rank_fields)
  show ?thesis
  proof (cases "has_ellipsis spec")
    case True
    show ?thesis
    proof (cases "split_ellipsis_spec spec")
      case (Inl e)
      with True assms have "e = ShapeGuardError g" by (simp add: match_shape_def)
      with Inl show ?thesis
        by (auto simp: split_ellipsis_spec_def Let_def split: if_splits)
    next
      case (Inr parts)
      obtain before_dims after_dims where parts: "parts = (before_dims, after_dims)"
        by (cases parts)
      show ?thesis
      proof (cases "length actual < length before_dims + length after_dims")
        case short: True
        with True Inr parts assms rank show ?thesis
          by (auto simp: match_shape_def)
      next
        case False
        with True Inr parts assms
        have "(case match_dims actual spec source 0 before_dims ctx of
                 Inl failure \<Rightarrow> Inl failure
               | Inr ctx' \<Rightarrow>
                   match_dims actual spec source
                     (int (length actual) - int (length after_dims)) after_dims ctx') =
              Inl (ShapeGuardError g, c)"
          by (auto simp: match_shape_def Let_def split: sum.splits)
        then show ?thesis
          by (auto split: sum.splits intro: loop)
      qed
    qed
  next
    case False
    show ?thesis
    proof (cases "length actual = length spec")
      case True
      with False assms
      have "match_dims actual spec source 0 (filter_ellipsis spec) ctx =
            Inl (ShapeGuardError g, c)"
        by (simp add: match_shape_def)
      then show ?thesis by (rule loop)
    next
      case differ: False
      with False assms rank show ?thesis by (auto simp: match_shape_def)
    qed
  qed
qed

text \<open>
  The claim as the specification words it asks for expected shape, actual shape and
  bindings on every failure. With \<open>n\<close> bound to 5 and a shape that has 6 in its place,
  the error that comes out has none of the three.
\<close>

theorem unification_error_without_bindings:
  "match_shape [6, 2] [Symbolic (Dim 0 ''n''), Exact 2] [(Dim 0 ''n'', 5, ''x[0]'')] ''y'' =
     Inl (ShapeGuardError
            \<lparr> err_class = UnificationError (Dim 0 ''n'') 5 ''x[0]'' 6 ''y[0]'',
              err_message = ''dimension '' @ [CHR 0x27] @ ''n'' @ [CHR 0x27] @
                            '' bound to 5 from x[0], but got 6 from y[0]'',
              err_function = None, err_argument = None,
              err_expected = None, err_actual = None,
              err_reason = Some (''dimension '' @ [CHR 0x27] @ ''n'' @ [CHR 0x27] @
                                 '' bound to 5 from x[0], but got 6 from y[0]''),
              err_bindings = None \<rparr>,
          [(Dim 0 ''n'', 5, ''x[0]'')])"
  by (simp add: match_shape_def has_ellipsis_def filter_ellipsis_def getitem_def bind_def
      UnificationError_init_def ShapeGuardError_init_def Let_def
      str_int_def str_nat.simps digit_char_def)

theorem diagnostic_fields_of_failures_witness:
  "match_shape [3, 5] [Symbolic (Dim 0 ''n''), Exact 4] [] ''x'' =
     Inl (ShapeGuardError
            (DimensionMismatchError_init None None 1 4 5 [Symbolic (Dim 0 ''n''), Exact 4] [3, 5]
               (Some (format_bindings [(Dim 0 ''n'', 3, ''x[0]'')]))),
          [(Dim 0 ''n'', 3, ''x[0]'')])
   \<and> err_expected
        (DimensionMismatchError_init None None 1 4 5 [Symbolic (Dim 0 ''n''), Exact 4] [3, 5]
           (Some (format_bindings [(Dim 0 ''n'', 3, ''x[0]'')]))) =
       Some [Symbolic (Dim 0 ''n''), Exact 4]
   \<and> err_bindings
        (DimensionMismatchError_init None None 1 4 5 [Symbolic (Dim 0 ''n''), Exact 4] [3, 5]
           (Some (format_bindings [(Dim 0 ''n'', 3, ''x[0]'')]))) =
       Some ''n=3''"
proof -
  let ?g = "DimensionMismatchError_init None None 1 4 5 [Symbolic (Dim 0 ''n''), Exact 4] [3, 5]
               (Some (format_bindings [(Dim 0 ''n'', 3, ''x[0]'')]))"
  have h: "match_shape [3, 5] [Symbolic (Dim 0 ''n''), Exact 4] [] ''x'' =
     Inl (ShapeGuardError ?g, [(Dim 0 ''n'', 3, ''x[0]'')])"
    by (simp add: match_shape_def has_ellipsis_def filter_ellipsis_def getitem_def bind_def
        str_int_def str_nat.simps digit_char_def)
  have cls: "err_class ?g = DimensionMismatchError" by (simp add: dimension_fields)
  from diagnostic_fields_of_failures [OF h]
  have "err_expected ?g = Some [Symbolic (Dim 0 ''n''), Exact 4] \<and>
        err_actual ?g = Some [3, 5] \<and>
        err_bindings ?g = Some (format_bindings [(Dim 0 ''n'', 3, ''x[0]'')]) \<and>
        err_reason ?g = Some (err_message ?g) \<and> err_message ?g \<noteq> []"
    unfolding cls by simp
  moreover have "format_bindings [(Dim 0 ''n'', 3, ''x[0]'')] = ''n=3''"
    by (simp add: format_bindings_def str_int_def str_nat.simps digit_char_def)
  ultimately show ?thesis using h by simp
qed

section \<open>Errors in the specification itself\<close>

lemma filter_ellipsis_clean: "\<not> has_ellipsis (filter_ellipsis xs)"
  by (induction xs) (auto simp: has_ellipsis_def filter_ellipsis_def)

lemma split_parts_clean:
  "split_ellipsis_spec spec = Inr (before_dims, after_dims) \<Longrightarrow>
   \<not> has_ellipsis before_dims \<and> \<not> has_ellipsis after_dims"
proof -
  assume split: "split_ellipsis_spec spec = Inr (before_dims, after_dims)"
  have nil: "\<not> has_ellipsis []" by (simp add: has_ellipsis_def)
  from split show ?thesis
    by (auto simp: split_ellipsis_spec_def Let_def filter_ellipsis_clean nil split: if_splits)
qed

lemma has_ellipsis_member: "\<not> has_ellipsis xs \<Longrightarrow> x \<in> set xs \<Longrightarrow> \<not> is_ellipsis x"
  by (auto simp: has_ellipsis_def list_ex_iff)

lemma positions_clean:
  assumes "split_ellipsis_spec spec = Inr (before_dims, after_dims)"
    and "p \<in> set (positions actual spec)"
  shows "\<not> is_ellipsis (snd p)"
proof (cases "has_ellipsis spec")
  case True
  with assms have "p \<in> set (leading_positions before_dims) \<or>
      p \<in> set (trailing_positions actual after_dims)"
    by (simp add: positions_def)
  then have "snd p \<in> set before_dims \<or> snd p \<in> set after_dims"
    using set_zip_rightD [of "fst p" "snd p"]
    by (auto simp: leading_positions_def trailing_positions_def)
  with split_parts_clean [OF assms(1)] show ?thesis
    by (auto dest: has_ellipsis_member)
next
  case False
  with assms have "p \<in> set (leading_positions spec)" by (simp add: positions_def)
  then have "snd p \<in> set spec"
    using set_zip_rightD [of "fst p" "snd p"] by (simp add: leading_positions_def)
  with False show ?thesis by (auto dest: has_ellipsis_member)
qed

lemma bind_not_TypeError: "bind ctx d v source \<noteq> Inl (TypeError msg, c)"
  by (auto simp: bind_def split: option.splits)

lemma match_dim_TypeError:
  "match_dim actual_dim spec_dim index actual_shape spec ctx source = Inl (TypeError msg, c) \<Longrightarrow>
   is_ellipsis spec_dim \<or>
   (\<exists>r s. spec_dim = Other r s \<and>
      msg = ''Invalid spec element at position '' @ str_int index @ '': '' @ r @
            '' (expected int, Dim, None, or ...)'')"
  by (cases spec_dim) (auto simp: bind_not_TypeError split: if_splits)

lemma match_positions_fails_at:
  assumes "k < length ps"
    and "match_positions actual spec source (take k ps) ctx = Inr c"
    and "match_dim (actual ! fst (ps ! k)) (snd (ps ! k)) (int (fst (ps ! k))) actual spec c source =
         Inl failure"
  shows "match_positions actual spec source ps ctx = Inl failure"
proof -
  from assms(1) have "ps = take k ps @ ps ! k # drop (Suc k) ps"
    by (rule id_take_nth_drop)
  then have "match_positions actual spec source ps ctx =
      match_positions actual spec source (take k ps @ ps ! k # drop (Suc k) ps) ctx"
    by simp
  also have "\<dots> = match_positions actual spec source (ps ! k # drop (Suc k) ps) c"
    by (simp add: match_positions_append assms(2))
  also have "\<dots> = Inl failure"
    using assms(3) by (cases "ps ! k") simp
  finally show ?thesis .
qed

text \<open>
  C4, as the code has it. A specification with two or more ellipsis elements is
  rejected with a \<open>ValueError\<close> as soon as \<open>match_shape\<close> is entered: before the rank
  check, before any element, with the store as the caller left it. An element that is
  no integer, dimension, wildcard or ellipsis is rejected with a \<open>TypeError\<close> only when
  the per-element pass reaches it: the call ends in that \<open>TypeError\<close> exactly when the
  rank check has passed, some visited position \<open>k\<close> holds such an element, and all
  positions before \<open>k\<close> have matched; the store then holds what those positions bound.
  Neither error is a \<open>ShapeGuardError\<close>.
\<close>

theorem construction_errors_raised:
  "(1 < length (filter is_ellipsis spec) \<longrightarrow>
      match_shape actual spec ctx source =
        Inl (ValueError ''Shape spec cannot contain more than one ellipsis'', ctx))
   \<and> (split_ellipsis_spec spec = Inr (before_dims, after_dims) \<longrightarrow>
        (match_shape actual spec ctx source = Inl (TypeError msg, c) \<longleftrightarrow>
           (if has_ellipsis spec
            then \<not> length actual < length before_dims + length after_dims
            else length actual = length spec) \<and>
           (\<exists>k < length (positions actual spec). \<exists>r s.
              snd (positions actual spec ! k) = Other r s \<and>
              msg = ''Invalid spec element at position '' @
                    str_int (int (fst (positions actual spec ! k))) @ '': '' @ r @
                    '' (expected int, Dim, None, or ...)'' \<and>
              match_positions actual spec source (take k (positions actual spec)) ctx = Inr c)))"
proof (intro conjI impI)
  assume many: "1 < length (filter is_ellipsis spec)"
  then have "0 < length (filter is_ellipsis spec)" by linarith
  then have "has_ellipsis spec" by (simp only: has_ellipsis_count)
  with split_two_or_more [OF many]
  show "match_shape actual spec ctx source =
        Inl (ValueError ''Shape spec cannot contain more than one ellipsis'', ctx)"
    by (simp add: match_shape_def)
next
  assume split: "split_ellipsis_spec spec = Inr (before_dims, after_dims)"
  let ?ps = "positions actual spec"
  let ?rank_ok = "if has_ellipsis spec
            then \<not> length actual < length before_dims + length after_dims
            else length actual = length spec"
  let ?reached = "\<exists>k < length ?ps. \<exists>r s.
              snd (?ps ! k) = Other r s \<and>
              msg = ''Invalid spec element at position '' @
                    str_int (int (fst (?ps ! k))) @ '': '' @ r @
                    '' (expected int, Dim, None, or ...)'' \<and>
              match_positions actual spec source (take k ?ps) ctx = Inr c"
  show "match_shape actual spec ctx source = Inl (TypeError msg, c) \<longleftrightarrow> ?rank_ok \<and> ?reached"
  proof
    assume res: "match_shape actual spec ctx source = Inl (TypeError msg, c)"
    have rank_ok: ?rank_ok
    proof (rule ccontr)
      assume "\<not> ?rank_ok"
      then have "if has_ellipsis spec then length actual < length before_dims + length after_dims
          else length actual \<noteq> length spec"
        by (simp split: if_splits)
      with split match_shape_early_failure [OF res] show False by auto
    qed
    from match_shape_positions [OF split rank_ok, of ctx source] res
    have "match_positions actual spec source ?ps ctx = Inl (TypeError msg, c)" by simp
    from match_positions_failure [OF this] obtain k where k: "k < length ?ps"
      "match_positions actual spec source (take k ?ps) ctx = Inr c"
      "match_dim (actual ! fst (?ps ! k)) (snd (?ps ! k)) (int (fst (?ps ! k))) actual spec c source =
         Inl (TypeError msg, c)"
      by blast
    from k(1) have "?ps ! k \<in> set ?ps" by simp
    from positions_clean [OF split this] match_dim_TypeError [OF k(3)]
    obtain r s where "snd (?ps ! k) = Other r s"
      "msg = ''Invalid spec element at position '' @ str_int (int (fst (?ps ! k))) @ '': '' @ r @
            '' (expected int, Dim, None, or ...)''"
      by blast
    with k(1,2) have ?reached by blast
    with rank_ok show "?rank_ok \<and> ?reached" ..
  next
    assume "?rank_ok \<and> ?reached"
    then have rank_ok: ?rank_ok and ?reached by blast+
    then obtain k r s where k: "k < length ?ps" "snd (?ps ! k) = Other r s"
      "msg = ''Invalid spec element at position '' @ str_int (int (fst (?ps ! k))) @ '': '' @ r @
            '' (expected int, Dim, None, or ...)''"
      "match_positions actual spec source (take k ?ps) ctx = Inr c"
      by blast
    from k(2,3)
    have "match_dim (actual ! fst (?ps ! k)) (snd (?ps ! k)) (int (fst (?ps ! k))) actual spec c source =
         Inl (TypeError msg, c)"
      by simp
    from match_positions_fails_at [OF k(1) k(4) this]
    show "match_shape actual spec ctx source = Inl (TypeError msg, c)"
      by (simp add: match_shape_positions [OF split rank_ok])
  qed
qed

text \<open>
  The claim as the specification words it has every construction error raised before
  any matching. Here the first element binds \<open>n\<close> and the second is a float: the
  \<open>TypeError\<close> comes after the binding, which stays in the store.
\<close>

theorem invalid_element_rejected_after_binding:
  "match_shape [3, 4] [Symbolic (Dim 0 ''n''), Other ''1.5'' ''1.5''] [] ''x'' =
     Inl (TypeError ''Invalid spec element at position 1: 1.5 (expected int, Dim, None, or ...)'',
          [(Dim 0 ''n'', 3, ''x[0]'')])"
  by (simp add: match_shape_def has_ellipsis_def filter_ellipsis_def getitem_def bind_def
      str_int_def str_nat.simps digit_char_def)

theorem construction_errors_raised_witness:
  "1 < length (filter is_ellipsis [Ellipsis, Symbolic (Dim 0 ''n''), Ellipsis])
   \<and> match_shape [3, 4] [Ellipsis, Symbolic (Dim 0 ''n''), Ellipsis] [] ''x'' =
       Inl (ValueError ''Shape spec cannot contain more than one ellipsis'', [])
   \<and> split_ellipsis_spec [Symbolic (Dim 0 ''n''), Other ''1.5'' ''1.5''] =
       Inr ([Symbolic (Dim 0 ''n''), Other ''1.5'' ''1.5''], [])
   \<and> match_shape [3, 4] [Symbolic (Dim 0 ''n''), Other ''1.5'' ''1.5''] [] ''x'' =
       Inl (TypeError ''Invalid spec element at position 1: 1.5 (expected int, Dim, None, or ...)'',
            [(Dim 0 ''n'', 3, ''x[0]'')])"
proof -
  let ?bad = "[Symbolic (Dim 0 ''n''), Other ''1.5'' ''1.5'']"
  let ?msg = "''Invalid spec element at position 1: 1.5 (expected int, Dim, None, or ...)''"
  let ?c = "[(Dim 0 ''n'', 3, ''x[0]'')] :: ctx"
  have h1: "1 < length (filter is_ellipsis [Ellipsis, Symbolic (Dim 0 ''n''), Ellipsis])"
    by simp
  have h2: "split_ellipsis_spec ?bad = Inr (?bad, [])"
    by (simp add: split_ellipsis_spec_def ellipsis_indices_def filter_ellipsis_def)
  have no: "\<not> has_ellipsis ?bad" by (simp add: has_ellipsis_def)
  have ps: "positions [3, 4] ?bad = [(0, Symbolic (Dim 0 ''n'')), (1, Other ''1.5'' ''1.5'')]"
    by (simp add: positions_def no leading_positions_def upt_conv_Cons)
  have reached: "\<exists>k < length (positions [3, 4] ?bad). \<exists>r s.
              snd (positions [3, 4] ?bad ! k) = Other r s \<and>
              ?msg = ''Invalid spec element at position '' @
                     str_int (int (fst (positions [3, 4] ?bad ! k))) @ '': '' @ r @
                     '' (expected int, Dim, None, or ...)'' \<and>
              match_positions [3, 4] ?bad ''x'' (take k (positions [3, 4] ?bad)) [] = Inr ?c"
    unfolding ps
    by (rule exI [of _ 1])
      (simp add: bind_def str_int_def str_nat.simps digit_char_def)
  note t = construction_errors_raised
  from t [of "[Ellipsis, Symbolic (Dim 0 ''n''), Ellipsis]" "[3, 4]" "[]" "''x''"] h1
  have r1: "match_shape [3, 4] [Ellipsis, Symbolic (Dim 0 ''n''), Ellipsis] [] ''x'' =
       Inl (ValueError ''Shape spec cannot contain more than one ellipsis'', [])"
    by blast
  from t [of ?bad "[3, 4]" "[]" "''x''" ?bad "[]" ?msg ?c] h2 no reached
  have r2: "match_shape [3, 4] ?bad [] ''x'' = Inl (TypeError ?msg, ?c)"
    by simp
  from h1 r1 h2 r2 show ?thesis by (intro conjI)
qed

section \<open>The standalone check\<close>

text \<open>
  C10. \<open>check_shape\<close> returns the reference it was handed: called with a store \<open>r\<close>
  it can only return \<open>r\<close>, and that store then holds what the match left in it. Called
  without one it allocates a store that is empty and new (its reference is the first one
  not in the heap; the stores already there are untouched), matches against it and
  returns it. When the match raises a \<open>ShapeGuardError\<close>, the error that leaves
  \<open>check_shape\<close> is that error with \<open>argument\<close> set to the name and every other field
  as it was. An omitted name is \<open>"array"\<close>.
\<close>

theorem check_shape_returns_given_store:
  "(get_shape x = Inr actual \<and> match_shape actual spec (h ! r) name = Inr store \<longrightarrow>
      check_shape h x spec (Some name) (Some r) = (Inr r, h[r := store]))
   \<and> (get_shape x = Inr actual \<and> match_shape actual spec [] name = Inr store \<longrightarrow>
      check_shape h x spec (Some name) None = (Inr (length h), h @ [store]))
   \<and> (get_shape x = Inr actual \<and>
      match_shape actual spec (h ! r) name = Inl (ShapeGuardError g, store) \<longrightarrow>
      check_shape h x spec (Some name) (Some r) =
        (Inl (ShapeGuardError (g\<lparr>err_argument := Some name\<rparr>)), h[r := store]))
   \<and> (get_shape x = Inr actual \<and>
      match_shape actual spec [] name = Inl (ShapeGuardError g, store) \<longrightarrow>
      check_shape h x spec (Some name) None =
        (Inl (ShapeGuardError (g\<lparr>err_argument := Some name\<rparr>)), h @ [store]))
   \<and> (\<forall>r'. fst (check_shape h x spec name_arg (Some r)) = Inr r' \<longrightarrow> r' = r)
   \<and> (\<forall>r'. fst (check_shape h x spec name_arg None) = Inr r' \<longrightarrow> r' = length h)
   \<and> check_shape h x spec None ctx_arg = check_shape h x spec (Some ''array'') ctx_arg"
proof (intro conjI impI allI)
  assume "get_shape x = Inr actual \<and> match_shape actual spec (h ! r) name = Inr store"
  then show "check_shape h x spec (Some name) (Some r) = (Inr r, h[r := store])"
    by (simp add: check_shape_def)
next
  assume "get_shape x = Inr actual \<and> match_shape actual spec [] name = Inr store"
  then show "check_shape h x spec (Some name) None = (Inr (length h), h @ [store])"
    by (simp add: check_shape_def)
next
  assume "get_shape x = Inr actual \<and>
      match_shape actual spec (h ! r) name = Inl (ShapeGuardError g, store)"
  then show "check_shape h x spec (Some name) (Some r) =
        (Inl (ShapeGuardError (g\<lparr>err_argument := Some name\<rparr>)), h[r := store])"
    by (simp add: check_shape_def set_argument_def)
next
  assume "get_shape x = Inr actual \<and>
      match_shape actual spec [] name = Inl (ShapeGuardError g, store)"
  then show "check_shape h x spec (Some name) None =
        (Inl (ShapeGuardError (g\<lparr>err_argument := Some name\<rparr>)), h @ [store])"
    by (simp add: check_shape_def set_argument_def)
next
  fix r'
  assume "fst (check_shape h x spec name_arg (Some r)) = Inr r'"
  then show "r' = r"
    by (auto simp: check_shape_def Let_def split: sum.splits prod.splits)
next
  fix r'
  assume "fst (check_shape h x spec name_arg None) = Inr r'"
  then show "r' = length h"
    by (auto simp: check_shape_def Let_def split: sum.splits prod.splits)
next
  show "check_shape h x spec None ctx_arg = check_shape h x spec (Some ''array'') ctx_arg"
    by (simp add: check_shape_def)
qed

theorem check_shape_returns_given_store_witness:
  "get_shape (ArrayLike [6, 2]) = Inr [6, 2]
   \<and> match_shape [6, 2] [Symbolic (Dim 0 ''n''), Exact 2] ([[(Dim 0 ''n'', 5, ''x[0]'')]] ! 0) ''y'' =
       Inl (ShapeGuardError (UnificationError_init (Dim 0 ''n'') 5 ''x[0]'' 6 ''y[0]''),
            [(Dim 0 ''n'', 5, ''x[0]'')])
   \<and> check_shape [[(Dim 0 ''n'', 5, ''x[0]'')]] (ArrayLike [6, 2])
        [Symbolic (Dim 0 ''n''), Exact 2] (Some ''y'') (Some 0) =
       (Inl (ShapeGuardError
               ((UnificationError_init (Dim 0 ''n'') 5 ''x[0]'' 6 ''y[0]'')
                  \<lparr>err_argument := Some ''y''\<rparr>)),
        [[(Dim 0 ''n'', 5, ''x[0]'')]])
   \<and> match_shape [5, 2] [Symbolic (Dim 0 ''n''), Exact 2] [] ''y'' =
       Inr [(Dim 0 ''n'', 5, ''y[0]'')]
   \<and> check_shape [[(Dim 0 ''n'', 5, ''x[0]'')]] (ArrayLike [5, 2])
        [Symbolic (Dim 0 ''n''), Exact 2] (Some ''y'') None =
       (Inr 1, [[(Dim 0 ''n'', 5, ''x[0]'')], [(Dim 0 ''n'', 5, ''y[0]'')]])"
proof -
  let ?h = "[[(Dim 0 ''n'', 5, ''x[0]'')]] :: heap"
  let ?spec = "[Symbolic (Dim 0 ''n''), Exact 2]"
  let ?g = "UnificationError_init (Dim 0 ''n'') 5 ''x[0]'' 6 ''y[0]''"
  have s1: "get_shape (ArrayLike [6, 2]) = Inr [6, 2]" by simp
  have s2: "get_shape (ArrayLike [5, 2]) = Inr [5, 2]" by simp
  have m1: "match_shape [6, 2] ?spec (?h ! 0) ''y'' =
      Inl (ShapeGuardError ?g, [(Dim 0 ''n'', 5, ''x[0]'')])"
    by (simp add: match_shape_def has_ellipsis_def filter_ellipsis_def getitem_def bind_def
        str_int_def str_nat.simps digit_char_def)
  have m2: "match_shape [5, 2] ?spec [] ''y'' = Inr [(Dim 0 ''n'', 5, ''y[0]'')]"
    by (simp add: match_shape_def has_ellipsis_def filter_ellipsis_def getitem_def bind_def
        str_int_def str_nat.simps digit_char_def)
  note t = check_shape_returns_given_store
  from t [where x = "ArrayLike [6, 2]" and actual = "[6, 2]" and spec = ?spec and h = ?h
        and r = 0 and name = "''y''" and g = ?g and store = "[(Dim 0 ''n'', 5, ''x[0]'')]"]
    s1 m1
  have r1: "check_shape ?h (ArrayLike [6, 2]) ?spec (Some ''y'') (Some 0) =
       (Inl (ShapeGuardError (?g\<lparr>err_argument := Some ''y''\<rparr>)), ?h[0 := [(Dim 0 ''n'', 5, ''x[0]'')]])"
    by blast
  from t [where x = "ArrayLike [5, 2]" and actual = "[5, 2]" and spec = ?spec and h = ?h
        and name = "''y''" and store = "[(Dim 0 ''n'', 5, ''y[0]'')]"]
    s2 m2
  have r2: "check_shape ?h (ArrayLike [5, 2]) ?spec (Some ''y'') None =
       (Inr (length ?h), ?h @ [[(Dim 0 ''n'', 5, ''y[0]'')]])"
    by blast
  from r1 have r1': "check_shape ?h (ArrayLike [6, 2]) ?spec (Some ''y'') (Some 0) =
       (Inl (ShapeGuardError (?g\<lparr>err_argument := Some ''y''\<rparr>)), ?h)"
    by simp
  from r2 have r2': "check_shape ?h (ArrayLike [5, 2]) ?spec (Some ''y'') None =
       (Inr 1, [[(Dim 0 ''n'', 5, ''x[0]'')], [(Dim 0 ''n'', 5, ''y[0]'')]])"
    by simp
  from s1 m1 r1' m2 r2' show ?thesis by (intro conjI)
qed

section \<open>How a diagnostic prints the specification\<close>

text \<open>
  C6. The specification has every diagnostic render a wildcard as \<open>*\<close>, an ellipsis as
  \<open>...\<close> and a symbolic dimension by its name. \<open>format_spec\<close> renders a specification
  that way, but no diagnostic calls it: the errors store the raw specification tuple and
  \<open>ShapeGuardError.__str__\<close> formats it with \<open>_format_shape\<close>, that is with \<open>str\<close> of
  each element. For the shape \<open>(3,)\<close> against \<open>(None, 4)\<close> the report shows
  \<open>(None, 4)\<close> where \<open>format_spec\<close> gives \<open>(*, 4)\<close>, whatever \<open>Dim\<close> and
  \<open>_EllipsisType\<close> print as.
\<close>

theorem diagnostic_renders_wildcard_as_None:
  "match_shape [3] [Wildcard, Exact 4] [] ''x'' =
     Inl (ShapeGuardError
            (RankMismatchError_init None None (Inl 2) 1 [Wildcard, Exact 4] [3]
               (Some (format_bindings []))), [])
   \<and> error_str str_dim str_ellipsis
        (RankMismatchError_init None None (Inl 2) 1 [Wildcard, Exact 4] [3]
           (Some (format_bindings []))) =
       join [CHR 0x0A]
         [''ShapeGuardError:'',
          ''  expected: (None, 4)'',
          ''  actual:   (3)'',
          ''  reason:   expected rank 2, got rank 1'',
          ''  bindings: '' @ format_bindings []]
   \<and> format_spec [Wildcard, Exact 4] = ''(*, 4)''"
proof -
  have run: "match_shape [3] [Wildcard, Exact 4] [] ''x'' =
     Inl (ShapeGuardError
            (RankMismatchError_init None None (Inl 2) 1 [Wildcard, Exact 4] [3]
               (Some (format_bindings []))), [])"
    by (simp add: match_shape_def has_ellipsis_def)
  have shown: "error_str str_dim str_ellipsis
        (RankMismatchError_init None None (Inl 2) 1 [Wildcard, Exact 4] [3]
           (Some (format_bindings []))) =
       join [CHR 0x0A]
         [''ShapeGuardError:'',
          ''  expected: (None, 4)'',
          ''  actual:   (3)'',
          ''  reason:   expected rank 2, got rank 1'',
          ''  bindings: '' @ format_bindings []]"
    by (simp add: error_str_def RankMismatchError_init_def ShapeGuardError_init_def Let_def
        format_shape_def format_bindings_def no_bindings_marker_def
        str_int_def str_nat.simps digit_char_def)
  have meant: "format_spec [Wildcard, Exact 4] = ''(*, 4)''"
    by (simp add: format_spec_def str_int_def str_nat.simps digit_char_def)
  from run shown meant show ?thesis by (intro conjI)
qed

end
